theory Spec2Isabelle
  imports Complex_Main
begin

section \<open>The maze generator (src/utils/mazeGenerator.ts)\<close>

text \<open>
  The grid is the \<^verbatim>\<open>number[][]\<close> of the class: a list of rows, \<open>1\<close> a wall and \<open>0\<close> an
  open cell; \<^verbatim>\<open>maze[y][x]\<close> is row \<open>y\<close>, column \<open>x\<close>. Coordinates are integers, since the code
  forms \<open>x + dx\<close> with negative \<open>dx\<close> before it tests the result.

  A read or write of \<^verbatim>\<open>maze[y][x]\<close> with \<open>y\<close> outside the array raises a TypeError in
  JavaScript (\<^verbatim>\<open>maze[y]\<close> is undefined). A read with only \<open>x\<close> outside the row yields
  undefined, which is not equal to any number. A write with only \<open>x\<close> outside the row does not
  raise (the row grows or receives a property); the model does not follow the program past such a
  write and stops with \<open>Unmodelled\<close>.
\<close>

datatype error = TypeError | Unmodelled

type_synonym grid = "int list list"

text \<open>The \<open>k\<close>-th call of \<^verbatim>\<open>Math.random()\<close> returns \<open>rnd k\<close>.\<close>

type_synonym rng = "nat \<Rightarrow> real"

text \<open>\<^verbatim>\<open>this.maze\<close> together with the number of calls of \<^verbatim>\<open>Math.random()\<close> made so far.\<close>

type_synonym gen_state = "grid \<times> nat"

text \<open>\<^verbatim>\<open>Math.random()\<close> returns a number in the half-open interval from 0 to 1.\<close>

definition rand_ok :: "rng \<Rightarrow> bool" where
  "rand_ok rnd = (\<forall>k. 0 \<le> rnd k \<and> rnd k < 1)"

text \<open>\<^verbatim>\<open>maze[y][x] === v\<close>\<close>

definition cell_eq :: "grid \<Rightarrow> int \<Rightarrow> int \<Rightarrow> int \<Rightarrow> error + bool" where
  "cell_eq g x y v =
     (if 0 \<le> y \<and> y < int (length g)
      then Inr (0 \<le> x \<and> x < int (length (g ! nat y)) \<and> g ! nat y ! nat x = v)
      else Inl TypeError)"

text \<open>\<^verbatim>\<open>maze[y][x] = v\<close>\<close>

definition write_cell :: "grid \<Rightarrow> int \<Rightarrow> int \<Rightarrow> int \<Rightarrow> error + grid" where
  "write_cell g x y v =
     (if 0 \<le> y \<and> y < int (length g)
      then (if 0 \<le> x \<and> x < int (length (g ! nat y))
            then Inr (g[nat y := (g ! nat y)[nat x := v]])
            else Inl Unmodelled)
      else Inl TypeError)"

text \<open>\<^verbatim>\<open>Array(height).fill(null).map(() => Array(width).fill(1))\<close>\<close>

definition init_maze :: "nat \<Rightarrow> nat \<Rightarrow> grid" where
  "init_maze W H = replicate H (replicate W 1)"

definition isValidCell :: "int \<Rightarrow> int \<Rightarrow> int \<Rightarrow> int \<Rightarrow> bool" where
  "isValidCell W H x y = (x > 0 \<and> x < W - 1 \<and> y > 0 \<and> y < H - 1)"

definition directions :: "(int \<times> int) list" where
  "directions = [(0, -2), (2, 0), (0, 2), (-2, 0)]"

text \<open>
  The shuffle loop \<^verbatim>\<open>for (let i = n; i > 0; i--)\<close>: \<open>j = floor(random * (i + 1))\<close>, then the
  destructuring swap of entries \<open>i\<close> and \<open>j\<close> (both right-hand sides are read before either write).
  An index \<open>j\<close> outside the array would store undefined in the array, and the destructuring
  \<^verbatim>\<open>const [dx, dy]\<close> of that entry raises a TypeError later in the same call.
\<close>

fun shuffle_loop :: "rng \<Rightarrow> nat \<Rightarrow> (int \<times> int) list \<Rightarrow> nat \<Rightarrow> error + ((int \<times> int) list \<times> nat)" where
  "shuffle_loop rnd 0 ds k = Inr (ds, k)"
| "shuffle_loop rnd (Suc i) ds k =
     (let j = \<lfloor>rnd k * (real (Suc i) + 1)\<rfloor> in
      if 0 \<le> j \<and> j < int (length ds)
      then shuffle_loop rnd i (ds[Suc i := ds ! nat j, nat j := ds ! Suc i]) (Suc k)
      else Inl TypeError)"

definition shuffle :: "rng \<Rightarrow> nat \<Rightarrow> error + ((int \<times> int) list \<times> nat)" where
  "shuffle rnd k = shuffle_loop rnd (length directions - 1) directions k"

text \<open>
  \<open>carvePath\<close> and its loop over the shuffled directions. \<open>dx / 2\<close> is \<open>dx div 2\<close>: every
  \<open>dx\<close> of \<open>directions\<close> is even.
\<close>

function carvePath :: "rng \<Rightarrow> int \<Rightarrow> int \<Rightarrow> int \<Rightarrow> int \<Rightarrow> gen_state \<Rightarrow> error + gen_state"
  and carveDirs :: "rng \<Rightarrow> int \<Rightarrow> int \<Rightarrow> int \<Rightarrow> int \<Rightarrow> (int \<times> int) list \<Rightarrow> gen_state \<Rightarrow> error + gen_state"
where
  "carvePath rnd W H x y (g, k) =
     (case write_cell g x y 0 of
        Inl e \<Rightarrow> Inl e
      | Inr g1 \<Rightarrow>
          (case shuffle rnd k of
             Inl e \<Rightarrow> Inl e
           | Inr (ds, k1) \<Rightarrow> carveDirs rnd W H x y ds (g1, k1)))"
| "carveDirs rnd W H x y [] st = Inr st"
| "carveDirs rnd W H x y ((dx, dy) # ds) (g, k) =
     (let newX = x + dx; newY = y + dy in
      if isValidCell W H newX newY
      then (case cell_eq g newX newY 1 of
              Inl e \<Rightarrow> Inl e
            | Inr b \<Rightarrow>
                if b
                then (case write_cell g (x + dx div 2) (y + dy div 2) 0 of
                        Inl e \<Rightarrow> Inl e
                      | Inr g1 \<Rightarrow>
                          (case carvePath rnd W H newX newY (g1, k) of
                             Inl e \<Rightarrow> Inl e
                           | Inr st \<Rightarrow> carveDirs rnd W H x y ds st))
                else carveDirs rnd W H x y ds (g, k))
      else carveDirs rnd W H x y ds (g, k))"
  by pat_completeness auto

subsection \<open>Termination of the carving recursion\<close>

text \<open>
  The number of wall cells of the grid. A recursive call of \<open>carvePath\<close> is made only on a
  cell that is still a wall, and the call opens it, so the count taken after the first write of
  a call falls strictly from one call to the calls nested in it.
\<close>

definition row_walls :: "int list \<Rightarrow> nat" where
  "row_walls row = sum_list (map (\<lambda>c. if c = 1 then 1 else 0) row)"

definition walls :: "grid \<Rightarrow> nat" where
  "walls g = sum_list (map row_walls g)"

lemma row_walls_update:
  "i < length row \<Longrightarrow> row_walls (row[i := 0]) = row_walls row - (if row ! i = 1 then 1 else 0)"
  by (simp add: row_walls_def map_update sum_list_update)

lemma row_walls_pos: "i < length row \<Longrightarrow> row ! i = 1 \<Longrightarrow> 0 < row_walls row"
  unfolding row_walls_def
  by (induction row arbitrary: i) (auto simp: nth_Cons split: nat.splits)

lemma walls_update:
  "j < length g \<Longrightarrow> walls (g[j := r]) = walls g + row_walls r - row_walls (g ! j)"
  by (simp add: walls_def map_update sum_list_update)

lemma row_le_walls: "j < length g \<Longrightarrow> row_walls (g ! j) \<le> walls g"
  unfolding walls_def
  by (induction g arbitrary: j) (auto simp: nth_Cons split: nat.splits intro: trans_le_add2)

lemma write_cell_walls_le: "write_cell g x y 0 = Inr g1 \<Longrightarrow> walls g1 \<le> walls g"
  using row_le_walls[of "nat y" g]
  by (auto simp: write_cell_def walls_update row_walls_update split: if_splits)

lemma write_cell_walls_less:
  assumes "cell_eq g x y 1 = Inr True" and "write_cell g x y 0 = Inr g1"
  shows "walls g1 < walls g"
proof -
  from assms(1) have y: "nat y < length g" and x: "nat x < length (g ! nat y)"
    and c: "g ! nat y ! nat x = 1"
    by (auto simp: cell_eq_def split: if_splits)
  from assms(2) y x have g1: "g1 = g[nat y := (g ! nat y)[nat x := 0]]"
    by (auto simp: write_cell_def split: if_splits)
  have "0 < row_walls (g ! nat y)" using x c by (rule row_walls_pos)
  moreover have "row_walls (g ! nat y) \<le> walls g" using y by (rule row_le_walls)
  ultimately show ?thesis
    using y x c by (simp add: g1 walls_update row_walls_update)
qed

lemma cell_eq_walls_pos:
  assumes "cell_eq g x y 1 = Inr True"
  shows "0 < walls g"
proof -
  from assms have y: "nat y < length g" and x: "nat x < length (g ! nat y)"
    and c: "g ! nat y ! nat x = 1"
    by (auto simp: cell_eq_def split: if_splits)
  have "0 < row_walls (g ! nat y)" using x c by (rule row_walls_pos)
  moreover have "row_walls (g ! nat y) \<le> walls g" using y by (rule row_le_walls)
  ultimately show ?thesis by simp
qed

lemma cell_eq_write_other:
  "cell_eq g x y v = Inr True \<Longrightarrow> write_cell g x' y' v' = Inr g1 \<Longrightarrow> (x', y') \<noteq> (x, y) \<Longrightarrow>
   cell_eq g1 x y v = Inr True"
  by (auto simp: cell_eq_def write_cell_def nth_list_update split: if_splits)

lemma carve_walls_le:
  "carvePath_carveDirs_dom (Inl (rnd, W, H, x, y, st)) \<Longrightarrow>
     carvePath rnd W H x y st = Inr st' \<Longrightarrow> walls (fst st') \<le> walls (fst st)"
  "carvePath_carveDirs_dom (Inr (rnd, W, H, x, y, ds, st)) \<Longrightarrow>
     carveDirs rnd W H x y ds st = Inr st'' \<Longrightarrow> walls (fst st'') \<le> walls (fst st)"
proof (induction rnd W H x y st and rnd W H x y ds st arbitrary: st' and st''
       rule: carvePath_carveDirs.pinduct)
  case (1 rnd W H x y g k)
  from "1.prems" "1.hyps" obtain g1 ds k1 where
    w: "write_cell g x y 0 = Inr g1" and s: "shuffle rnd k = Inr (ds, k1)"
    and c: "carveDirs rnd W H x y ds (g1, k1) = Inr st'"
    by (auto simp: carvePath.psimps split: sum.splits prod.splits)
  from "1.IH"[OF w s refl c] have "walls (fst st') \<le> walls g1" by simp
  with write_cell_walls_le[OF w] show ?case by simp
next
  case (2 rnd W H x y st)
  then show ?case by (simp add: carveDirs.psimps)
next
  case (3 rnd W H x y dx dy ds g k)
  note eq = "3.prems"[unfolded carveDirs.psimps(2)[OF "3.hyps"] Let_def]
  show ?case
  proof (cases "isValidCell W H (x + dx) (y + dy)")
    case False
    with eq have "carveDirs rnd W H x y ds (g, k) = Inr st''" by simp
    from "3.IH"(4)[OF refl refl False this] show ?thesis .
  next
    case True
    with eq obtain b where b: "cell_eq g (x + dx) (y + dy) 1 = Inr b"
      by (auto split: sum.splits)
    show ?thesis
    proof (cases b)
      case False
      with eq True b have "carveDirs rnd W H x y ds (g, k) = Inr st''" by simp
      from "3.IH"(3)[OF refl refl True b False this] show ?thesis .
    next
      case bT: True
      with eq True b obtain g1 st1 where
        w: "write_cell g (x + dx div 2) (y + dy div 2) 0 = Inr g1"
        and p: "carvePath rnd W H (x + dx) (y + dy) (g1, k) = Inr st1"
        and c: "carveDirs rnd W H x y ds st1 = Inr st''"
        by (auto split: sum.splits)
      from "3.IH"(1)[OF refl refl True b bT w p] have "walls (fst st1) \<le> walls g1" by simp
      moreover from "3.IH"(2)[OF refl refl True b bT w p c]
      have "walls (fst st'') \<le> walls (fst st1)" .
      ultimately show ?thesis using write_cell_walls_le[OF w] by simp
    qed
  qed
qed

termination carvePath
proof (relation "inv_image (less_than <*lex*> less_than <*lex*> less_than)
    (\<lambda>a. case a of
       Inl (rnd, W, H, x, y, g, k) \<Rightarrow>
         (case write_cell g x y 0 of Inl e \<Rightarrow> 0 | Inr g1 \<Rightarrow> walls g1, 1::nat, 0::nat)
     | Inr (rnd, W, H, x, y, ds, g, k) \<Rightarrow> (walls g, 0, length ds))", goal_cases)
  case 1
  show ?case by (intro wf_inv_image wf_lex_prod wf_less_than)
next
  case (2 rnd W H x y g k g1 p ds k1)
  then show ?case by simp
next
  case (3 rnd W H x y dx dy ds g k newX newY b g1)
  from 3 have pos: "0 < walls g" by (auto dest: cell_eq_walls_pos)
  show ?case
  proof (cases "write_cell g1 newX newY 0")
    case (Inl e)
    with pos show ?thesis by simp
  next
    case (Inr g2)
    have "walls g2 < walls g"
    proof (cases "(x + dx div 2, y + dy div 2) = (newX, newY)")
      case True
      with 3 have "walls g1 < walls g" by (auto dest: write_cell_walls_less)
      with write_cell_walls_le[OF Inr] show ?thesis by simp
    next
      case False
      with 3 have "cell_eq g1 newX newY 1 = Inr True"
        by (auto dest: cell_eq_write_other)
      from write_cell_walls_less[OF this Inr] have "walls g2 < walls g1" .
      moreover from 3 have "walls g1 \<le> walls g" by (auto dest: write_cell_walls_le)
      ultimately show ?thesis by simp
    qed
    with Inr show ?thesis by simp
  qed
next
  case (4 rnd W H x y dx dy ds g k newX newY b g1 st)
  from 4 have "walls g1 \<le> walls g" by (auto dest: write_cell_walls_le)
  moreover from 4 have "walls (fst st) \<le> walls g1" by (auto dest: carve_walls_le(1))
  ultimately show ?case by (cases st) auto
next
  case (5 rnd W H x y dx dy ds g k newX newY b)
  then show ?case by simp
next
  case (6 rnd W H x y dx dy ds g k newX newY)
  then show ?case by simp
qed


subsection \<open>The exit path and \<open>generate\<close>\<close>

text \<open>
  The loop of \<open>ensureExitPath\<close>. \<^verbatim>\<open>Math.random()\<close> is called only when
  \<open>currentX < exitX\<close> holds (the left operand of \<^verbatim>\<open>&&\<close> is tested first). The last branch
  (no assignment) cannot be taken while the loop condition holds.
\<close>

function exit_loop :: "rng \<Rightarrow> int \<Rightarrow> int \<Rightarrow> int \<Rightarrow> int \<Rightarrow> gen_state \<Rightarrow> error + gen_state" where
  "exit_loop rnd exitX exitY currentX currentY (g, k) =
     (if currentX < exitX \<or> currentY < exitY
      then (case write_cell g currentX currentY 0 of
              Inl e \<Rightarrow> Inl e
            | Inr g1 \<Rightarrow>
                (let k1 = (if currentX < exitX then Suc k else k) in
                 if currentX < exitX \<and> rnd k > 3 / 10
                 then exit_loop rnd exitX exitY (currentX + 1) currentY (g1, k1)
                 else if currentY < exitY
                 then exit_loop rnd exitX exitY currentX (currentY + 1) (g1, k1)
                 else if currentX < exitX
                 then exit_loop rnd exitX exitY (currentX + 1) currentY (g1, k1)
                 else exit_loop rnd exitX exitY currentX currentY (g1, k1)))
      else Inr (g, k))"
  by pat_completeness auto

termination
  by (relation "measure (\<lambda>(rnd, exitX, exitY, currentX, currentY, st).
        nat (exitX - currentX) + nat (exitY - currentY))") auto

definition ensureExitPath :: "rng \<Rightarrow> int \<Rightarrow> int \<Rightarrow> gen_state \<Rightarrow> error + gen_state" where
  "ensureExitPath rnd W H st =
     (let exitX = W - 2; exitY = H - 2 in
      case exit_loop rnd exitX exitY 1 1 st of
        Inl e \<Rightarrow> Inl e
      | Inr (g1, k1) \<Rightarrow>
          (case write_cell g1 exitX exitY 0 of
             Inl e \<Rightarrow> Inl e
           | Inr g2 \<Rightarrow> Inr (g2, k1)))"

definition generate :: "rng \<Rightarrow> nat \<Rightarrow> nat \<Rightarrow> error + grid" where
  "generate rnd W H =
     (case carvePath rnd (int W) (int H) 1 1 (init_maze W H, 0) of
        Inl e \<Rightarrow> Inl e
      | Inr st \<Rightarrow>
          (case ensureExitPath rnd (int W) (int H) st of
             Inl e \<Rightarrow> Inl e
           | Inr (g, k) \<Rightarrow> Inr g))"

section \<open>The game components\<close>

text \<open>
  The repository holds the basic component (src/components/MazeGame.tsx) and enhanced
  versions of it. The definitions below follow the enhanced component with enemies, lives and
  checkpoints; those with the suffix \<open>_basic\<close> follow MazeGame.tsx where it differs.
  JavaScript numbers are modelled as integers where the code only ever holds integers (grid
  indices, lives, score) and as real numbers elsewhere; the rounding of floating-point arithmetic
  is not modelled.
\<close>

definition MAZE_SIZE :: int where
  "MAZE_SIZE = 21"

definition WALL_SIZE :: real where
  "WALL_SIZE = 2"

definition MOVE_SPEED :: real where
  "MOVE_SPEED = 8 / 100"

definition MOVE_SPEED_basic :: real where
  "MOVE_SPEED_basic = 1 / 10"

definition MIN_SPAWN_DISTANCE :: real where
  "MIN_SPAWN_DISTANCE = 8"

definition COLLISION_RADIUS :: real where
  "COLLISION_RADIUS = 1 / 4"

record Position =
  pos_x :: int
  pos_z :: int

record Vector3 =
  vx :: real
  vy :: real
  vz :: real

record MoveState =
  forward :: bool
  backward :: bool
  left :: bool
  right :: bool

subsection \<open>Level setup: the exit scan\<close>

text \<open>
  The two nested loops of the effect that look for the exit, with the flag \<open>exitFound\<close> and
  \<open>exitPositionRef.current\<close> as the loop state.
\<close>

function scan_z :: "grid \<Rightarrow> int \<Rightarrow> int \<Rightarrow> Position \<times> bool \<Rightarrow> error + (Position \<times> bool)" where
  "scan_z maze x z (exitPos, exitFound) =
     (if z \<ge> MAZE_SIZE - 4 \<and> \<not> exitFound
      then (case cell_eq maze x z 0 of
              Inl e \<Rightarrow> Inl e
            | Inr b \<Rightarrow>
                scan_z maze x (z - 1)
                  (if b then (\<lparr>pos_x = x, pos_z = z\<rparr>, True) else (exitPos, exitFound)))
      else Inr (exitPos, exitFound))"
  by pat_completeness auto

termination
  by (relation "measure (\<lambda>(maze, x, z, st). nat (z + 5 - MAZE_SIZE))") auto

function scan_x :: "grid \<Rightarrow> int \<Rightarrow> Position \<times> bool \<Rightarrow> error + (Position \<times> bool)" where
  "scan_x maze x (exitPos, exitFound) =
     (if x \<ge> MAZE_SIZE - 4 \<and> \<not> exitFound
      then (case scan_z maze x (MAZE_SIZE - 2) (exitPos, exitFound) of
              Inl e \<Rightarrow> Inl e
            | Inr st \<Rightarrow> scan_x maze (x - 1) st)
      else Inr (exitPos, exitFound))"
  by pat_completeness auto

termination
  by (relation "measure (\<lambda>(maze, x, st). nat (x + 5 - MAZE_SIZE))") auto

definition find_exit :: "grid \<Rightarrow> error + Position" where
  "find_exit maze =
     (case scan_x maze (MAZE_SIZE - 2) (\<lparr>pos_x = 0, pos_z = 0\<rparr>, False) of
        Inl e \<Rightarrow> Inl e
      | Inr (exitPos, exitFound) \<Rightarrow> Inr exitPos)"

subsection \<open>Spawn validation\<close>

text \<open>\<^verbatim>\<open>Math.sqrt(Math.pow(x1 - x2, 2) + Math.pow(z1 - z2, 2))\<close> on grid coordinates.\<close>

definition grid_distance :: "int \<Rightarrow> int \<Rightarrow> int \<Rightarrow> int \<Rightarrow> real" where
  "grid_distance x1 z1 x2 z2 = sqrt (real_of_int ((x1 - x2)\<^sup>2 + (z1 - z2)\<^sup>2))"

text \<open>The loop over \<open>usedPositions\<close>: it returns false at the first position that is too close.\<close>

fun used_positions_ok :: "int \<Rightarrow> int \<Rightarrow> Position list \<Rightarrow> bool" where
  "used_positions_ok x z [] = True"
| "used_positions_ok x z (pos # rest) =
     (if grid_distance x z (pos_x pos) (pos_z pos) < 4 then False
      else used_positions_ok x z rest)"

definition isValidSpawnLocation :: "int \<Rightarrow> int \<Rightarrow> grid \<Rightarrow> Position list \<Rightarrow> error + bool" where
  "isValidSpawnLocation x z maze usedPositions =
     (case cell_eq maze x z 1 of
        Inl e \<Rightarrow> Inl e
      | Inr wall \<Rightarrow>
          if wall then Inr False
          else if grid_distance x z 1 1 < MIN_SPAWN_DISTANCE then Inr False
          else Inr (used_positions_ok x z usedPositions))"

text \<open>
  The validity of a spawn cell in the words of the specification: the cell is open, its distance
  from the player spawn exceeds the minimum spawn distance, and its distance from every position
  placed before exceeds the minimum separation.
\<close>

definition spawn_valid_spec :: "int \<Rightarrow> int \<Rightarrow> grid \<Rightarrow> Position list \<Rightarrow> bool" where
  "spawn_valid_spec x z maze usedPositions =
     (cell_eq maze x z 0 = Inr True \<and>
      grid_distance x z 1 1 > MIN_SPAWN_DISTANCE \<and>
      (\<forall>pos \<in> set usedPositions. grid_distance x z (pos_x pos) (pos_z pos) > 4))"

subsection \<open>The session state\<close>

text \<open>
  The values of the React state that one render of the component sees. The functions of the
  component are closures of a render: \<open>attackPlayer\<close>, \<open>respawnPlayer\<close>, \<open>updateMovement\<close> and
  \<open>checkWinCondition\<close> read \<open>lives\<close>, \<open>isRespawning\<close>, \<open>gameWon\<close>, \<open>score\<close> and
  \<open>currentCheckpoint\<close> as they were in that render, whatever the setters have stored since.
\<close>

record render =
  r_gameWon :: bool
  r_gameOver :: bool
  r_lives :: int
  r_score :: int
  r_isRespawning :: bool
  r_currentCheckpoint :: Position

text \<open>
  The messages handed to \<^verbatim>\<open>toast\<close>: the level is loaded, the player was attacked (with the
  lives remaining), the game is over, the player has respawned, the player has escaped (with the
  final score in the enhanced component, without it in the basic one), the game was reset.
\<close>

datatype toast =
  Loaded
  | Attacked int
  | OutOfLives
  | Respawned
  | Escaped int
  | Escaped_basic
  | GameReset

text \<open>
  The session: the React state as the setters have last stored it (\<open>gameWon\<close>, \<open>gameOver\<close>,
  \<open>lives\<close>, \<open>score\<close>, \<open>isRespawning\<close>, \<open>currentCheckpoint\<close>); the refs, which every closure
  shares and reads as they are now; the render whose closures the frame loop calls (\<open>animate\<close>
  is created inside the mount effect and keeps calling the functions of the render in which that
  effect ran); the toasts shown so far; and the part of the host the component acts on: the
  table of pending timers of \<^verbatim>\<open>window.setTimeout\<close> (each with the checkpoint its callback has
  captured), the next timer handle, whether a callback of \<^verbatim>\<open>requestAnimationFrame\<close> is
  pending, whether the key and resize listeners are attached and whether the renderer has been
  disposed. Timer handles are positive integers. Meshes, enemies and checkpoint objects are left
  out.
\<close>

record session =
  gameWon :: bool
  gameOver :: bool
  lives :: int
  score :: int
  isRespawning :: bool
  currentCheckpoint :: Position
  cameraRef :: "Vector3 option"
  mazeRef :: grid
  playerPositionRef :: Position
  exitPositionRef :: Position
  moveStateRef :: MoveState
  respawnTimerRef :: "nat option"
  captured :: render
  toasts :: "toast list"
  timers :: "(nat \<times> Position) list"
  nextHandle :: nat
  frameRequested :: bool
  listening :: bool
  rendererDisposed :: bool

text \<open>What a render made now sees.\<close>

definition render_of :: "session \<Rightarrow> render" where
  "render_of s =
     \<lparr>r_gameWon = gameWon s, r_gameOver = gameOver s, r_lives = lives s, r_score = score s,
      r_isRespawning = isRespawning s, r_currentCheckpoint = currentCheckpoint s\<rparr>"

subsection \<open>Damage and respawn\<close>

text \<open>\<^verbatim>\<open>window.clearTimeout(h)\<close> and \<^verbatim>\<open>window.setTimeout(callback, RESPAWN_DELAY)\<close>\<close>

definition clearTimeout :: "nat \<Rightarrow> session \<Rightarrow> session" where
  "clearTimeout h s = s\<lparr>timers := filter (\<lambda>t. fst t \<noteq> h) (timers s)\<rparr>"

definition setTimeout :: "Position \<Rightarrow> session \<Rightarrow> nat \<times> session" where
  "setTimeout checkpoint s =
     (nextHandle s,
      s\<lparr>timers := timers s @ [(nextHandle s, checkpoint)], nextHandle := Suc (nextHandle s)\<rparr>)"

text \<open>
  \<open>respawnPlayer\<close> of the render \<open>c\<close>. The guard reads \<open>isRespawning\<close> of the render, the refs
  are read as they are now. A timer handle is truthy unless it is 0; \<open>null\<close> is falsy. The
  callback captures \<open>currentCheckpoint\<close> of the render.
\<close>

definition respawnPlayer :: "render \<Rightarrow> session \<Rightarrow> session" where
  "respawnPlayer c s =
     (if cameraRef s = None \<or> r_isRespawning c then s
      else
        let s1 = s\<lparr>isRespawning := True\<rparr>;
            s2 = (case respawnTimerRef s1 of
                    None \<Rightarrow> s1
                  | Some h \<Rightarrow> if h \<noteq> 0 then clearTimeout h s1 else s1);
            (h', s3) = setTimeout (r_currentCheckpoint c) s2
        in s3\<lparr>respawnTimerRef := Some h'\<rparr>)"

text \<open>
  The callback of the respawn timer, with the checkpoint it captured and the two values of
  \<^verbatim>\<open>Math.random()\<close> it draws for the offsets.
\<close>

definition respawnCallback :: "Position \<Rightarrow> real \<Rightarrow> real \<Rightarrow> session \<Rightarrow> session" where
  "respawnCallback checkpoint r1 r2 s =
     (case cameraRef s of
        None \<Rightarrow> s
      | Some camera \<Rightarrow>
          let offsetX = (r1 - 1 / 2) * (1 / 2);
              offsetZ = (r2 - 1 / 2) * (1 / 2)
          in s\<lparr>cameraRef := Some
                 \<lparr>vx = (real_of_int (pos_x checkpoint) - real_of_int MAZE_SIZE / 2) * WALL_SIZE + offsetX,
                  vy = 16 / 10,
                  vz = (real_of_int (pos_z checkpoint) - real_of_int MAZE_SIZE / 2) * WALL_SIZE + offsetZ\<rparr>,
               playerPositionRef := checkpoint,
               isRespawning := False,
               toasts := toasts s @ [Respawned],
               respawnTimerRef := None\<rparr>)"

text \<open>
  \<open>attackPlayer\<close> of the render \<open>c\<close>: \<open>newLives\<close> is computed from \<open>lives\<close> of the render and
  stored with \<^verbatim>\<open>setLives\<close>.
\<close>

definition attackPlayer :: "render \<Rightarrow> session \<Rightarrow> session" where
  "attackPlayer c s =
     (if r_isRespawning c then s
      else
        let newLives = r_lives c - 1;
            s1 = s\<lparr>lives := newLives\<rparr>
        in if newLives \<le> 0
           then s1\<lparr>gameOver := True, toasts := toasts s1 @ [OutOfLives]\<rparr>
           else respawnPlayer c (s1\<lparr>toasts := toasts s1 @ [Attacked newLives]\<rparr>))"

subsection \<open>Win condition\<close>

text \<open>
  \<open>checkWinCondition\<close> of the render \<open>c\<close>: the positions come from the refs; \<open>gameWon\<close>,
  \<open>score\<close> and \<open>lives\<close> are those of the render.
\<close>

definition checkWinCondition :: "render \<Rightarrow> session \<Rightarrow> session" where
  "checkWinCondition c s =
     (let playerPos = playerPositionRef s;
          exitPos = exitPositionRef s;
          distance = grid_distance (pos_x playerPos) (pos_z playerPos) (pos_x exitPos) (pos_z exitPos)
      in if distance < 15 / 10 \<and> \<not> r_gameWon c
         then (let finalScore = r_score c + r_lives c * 50
               in s\<lparr>gameWon := True, score := finalScore,
                    toasts := toasts s @ [Escaped finalScore]\<rparr>)
         else s)"

definition checkWinCondition_basic :: "render \<Rightarrow> session \<Rightarrow> session" where
  "checkWinCondition_basic c s =
     (let playerPos = playerPositionRef s;
          exitPos = exitPositionRef s;
          distance = grid_distance (pos_x playerPos) (pos_z playerPos) (pos_x exitPos) (pos_z exitPos)
      in if distance < 15 / 10 \<and> \<not> r_gameWon c
         then s\<lparr>gameWon := True, toasts := toasts s @ [Escaped_basic]\<rparr>
         else s)"

subsection \<open>Collision test\<close>

definition worldToMaze :: "real \<Rightarrow> real" where
  "worldToMaze worldPos = (worldPos + real_of_int MAZE_SIZE * WALL_SIZE / 2) / WALL_SIZE"

text \<open>The loop over \<open>checkPositions\<close>: it returns true at the first sample that floors to a wall.\<close>

fun check_positions :: "grid \<Rightarrow> (real \<times> real) list \<Rightarrow> error + bool" where
  "check_positions maze [] = Inr False"
| "check_positions maze ((cx, cz) # rest) =
     (let gridX = \<lfloor>cx\<rfloor>; gridZ = \<lfloor>cz\<rfloor> in
      if gridX \<ge> 0 \<and> gridX < MAZE_SIZE \<and> gridZ \<ge> 0 \<and> gridZ < MAZE_SIZE
      then (case cell_eq maze gridX gridZ 1 of
              Inl e \<Rightarrow> Inl e
            | Inr wall \<Rightarrow> if wall then Inr True else check_positions maze rest)
      else check_positions maze rest)"

definition checkPositions :: "real \<Rightarrow> real \<Rightarrow> (real \<times> real) list" where
  "checkPositions mazeX mazeZ =
     [(mazeX, mazeZ),
      (mazeX + COLLISION_RADIUS, mazeZ),
      (mazeX - COLLISION_RADIUS, mazeZ),
      (mazeX, mazeZ + COLLISION_RADIUS),
      (mazeX, mazeZ - COLLISION_RADIUS)]"

definition checkCollision :: "grid \<Rightarrow> Vector3 \<Rightarrow> error + bool" where
  "checkCollision maze position =
     (let mazeX = worldToMaze (vx position);
          mazeZ = worldToMaze (vz position);
          margin = 1 / 10
      in if mazeX < margin \<or> mazeX \<ge> real_of_int MAZE_SIZE - margin \<or>
            mazeZ < margin \<or> mazeZ \<ge> real_of_int MAZE_SIZE - margin
         then Inr True
         else check_positions maze (checkPositions mazeX mazeZ))"

text \<open>\<^verbatim>\<open>createMaze\<close> places the wall of the cell \<open>(x, z)\<close> at this world position.\<close>

definition WALL_HEIGHT :: real where
  "WALL_HEIGHT = 3"

definition wall_position :: "int \<Rightarrow> int \<Rightarrow> Vector3" where
  "wall_position x z =
     \<lparr>vx = (real_of_int x - real_of_int MAZE_SIZE / 2) * WALL_SIZE,
      vy = WALL_HEIGHT / 2,
      vz = (real_of_int z - real_of_int MAZE_SIZE / 2) * WALL_SIZE\<rparr>"

text \<open>
  The wall is a box of \<^verbatim>\<open>BoxGeometry(WALL_SIZE, WALL_HEIGHT, WALL_SIZE)\<close> centred there: a
  position lies inside the wall of the cell \<open>(x, z)\<close> when it is less than half a wall size
  away from the centre along both axes.
\<close>

definition inside_wall_box :: "int \<Rightarrow> int \<Rightarrow> Vector3 \<Rightarrow> bool" where
  "inside_wall_box x z p =
     (\<bar>vx p - vx (wall_position x z)\<bar> < WALL_SIZE / 2 \<and>
      \<bar>vz p - vz (wall_position x z)\<bar> < WALL_SIZE / 2)"

text \<open>\<^verbatim>\<open>Math.round\<close> rounds a half up, as \<^const>\<open>round\<close> does.\<close>

definition checkCollision_basic :: "grid \<Rightarrow> Vector3 \<Rightarrow> error + bool" where
  "checkCollision_basic maze position =
     (let mazeX = round ((vx position + real_of_int MAZE_SIZE * WALL_SIZE / 2) / WALL_SIZE);
          mazeZ = round ((vz position + real_of_int MAZE_SIZE * WALL_SIZE / 2) / WALL_SIZE)
      in if mazeX < 0 \<or> mazeX \<ge> MAZE_SIZE \<or> mazeZ < 0 \<or> mazeZ \<ge> MAZE_SIZE
         then Inr True
         else cell_eq maze mazeX mazeZ 1)"

subsection \<open>Movement\<close>

text \<open>
  The rotation of the move vector by the camera (\<^verbatim>\<open>applyEuler\<close> with the camera's yaw in the
  enhanced component, \<^verbatim>\<open>applyQuaternion\<close> with the camera's quaternion in the basic one) is
  code of the three.js library; it is a parameter of the two movement functions. The guard
  \<^verbatim>\<open>!mazeRef.current\<close> never holds (the ref always holds an array), and the occasional
  console log is left out. The enhanced \<open>updateMovement\<close> reads \<open>isRespawning\<close> of its render
  \<open>c\<close>.
\<close>

definition moveVector :: "MoveState \<Rightarrow> Vector3" where
  "moveVector m =
     \<lparr>vx = (if left m then - 1 else 0) + (if right m then 1 else 0),
      vy = 0,
      vz = (if forward m then - 1 else 0) + (if backward m then 1 else 0)\<rparr>"

definition vec_length :: "Vector3 \<Rightarrow> real" where
  "vec_length v = sqrt ((vx v)\<^sup>2 + (vy v)\<^sup>2 + (vz v)\<^sup>2)"

definition multiplyScalar :: "real \<Rightarrow> Vector3 \<Rightarrow> Vector3" where
  "multiplyScalar c v = \<lparr>vx = vx v * c, vy = vy v * c, vz = vz v * c\<rparr>"

definition normalize :: "Vector3 \<Rightarrow> Vector3" where
  "normalize v = multiplyScalar (1 / (if vec_length v = 0 then 1 else vec_length v)) v"

definition player_cell :: "Vector3 \<Rightarrow> Position" where
  "player_cell p = \<lparr>pos_x = round (worldToMaze (vx p)), pos_z = round (worldToMaze (vz p))\<rparr>"

definition updateMovement :: "(Vector3 \<Rightarrow> Vector3) \<Rightarrow> render \<Rightarrow> session \<Rightarrow> error + session" where
  "updateMovement applyEuler c s =
     (case cameraRef s of
        None \<Rightarrow> Inr s
      | Some camera \<Rightarrow>
          if r_isRespawning c then Inr s
          else if vec_length (moveVector (moveStateRef s)) > 0
          then
            (let mv = applyEuler (multiplyScalar MOVE_SPEED (normalize (moveVector (moveStateRef s))));
                 originalPosition = camera;
                 testX = originalPosition\<lparr>vx := vx originalPosition + vx mv\<rparr>
             in case checkCollision (mazeRef s) testX of
                  Inl e \<Rightarrow> Inl e
                | Inr hitX \<Rightarrow>
                    (let camera1 = (if \<not> hitX then camera\<lparr>vx := vx testX\<rparr> else camera);
                         testZ = originalPosition\<lparr>vz := vz originalPosition + vz mv\<rparr>
                     in case checkCollision (mazeRef s) testZ of
                          Inl e \<Rightarrow> Inl e
                        | Inr hitZ \<Rightarrow>
                            (let camera2 = (if \<not> hitZ then camera1\<lparr>vz := vz testZ\<rparr> else camera1)
                             in Inr (s\<lparr>cameraRef := Some camera2,
                                      playerPositionRef := player_cell camera2\<rparr>))))
          else Inr s)"

definition velocity_basic :: "MoveState \<Rightarrow> Vector3" where
  "velocity_basic m =
     \<lparr>vx = (if left m then - MOVE_SPEED_basic else 0) + (if right m then MOVE_SPEED_basic else 0),
      vy = 0,
      vz = (if forward m then - MOVE_SPEED_basic else 0) + (if backward m then MOVE_SPEED_basic else 0)\<rparr>"

definition vec_add :: "Vector3 \<Rightarrow> Vector3 \<Rightarrow> Vector3" where
  "vec_add p v = \<lparr>vx = vx p + vx v, vy = vy p + vy v, vz = vz p + vz v\<rparr>"

definition updateMovement_basic :: "(Vector3 \<Rightarrow> Vector3) \<Rightarrow> session \<Rightarrow> error + session" where
  "updateMovement_basic applyQuaternion s =
     (case cameraRef s of
        None \<Rightarrow> Inr s
      | Some camera \<Rightarrow>
          (let velocity = (applyQuaternion (velocity_basic (moveStateRef s)))\<lparr>vy := 0\<rparr>;
               newPosition = vec_add camera velocity
           in case checkCollision_basic (mazeRef s) newPosition of
                Inl e \<Rightarrow> Inl e
              | Inr hit \<Rightarrow>
                  if \<not> hit
                  then Inr (s\<lparr>cameraRef := Some newPosition,
                             playerPositionRef := player_cell newPosition\<rparr>)
                  else Inr s))"

subsection \<open>Session life cycle\<close>

text \<open>
  The state the mount effect leaves behind: the first call of \<open>animate\<close> has been made, and
  the closures that \<open>animate\<close> calls are those of the first render.
\<close>

definition mounted :: "grid \<Rightarrow> Position \<Rightarrow> session" where
  "mounted maze exitPos =
     \<lparr>gameWon = False, gameOver = False, lives = 3, score = 0, isRespawning = False,
      currentCheckpoint = \<lparr>pos_x = 1, pos_z = 1\<rparr>,
      cameraRef = Some \<lparr>vx = WALL_SIZE, vy = 16 / 10, vz = WALL_SIZE\<rparr>,
      mazeRef = maze,
      playerPositionRef = \<lparr>pos_x = 1, pos_z = 1\<rparr>,
      exitPositionRef = exitPos,
      moveStateRef = \<lparr>forward = False, backward = False, left = False, right = False\<rparr>,
      respawnTimerRef = None,
      captured =
        \<lparr>r_gameWon = False, r_gameOver = False, r_lives = 3, r_score = 0,
         r_isRespawning = False, r_currentCheckpoint = \<lparr>pos_x = 1, pos_z = 1\<rparr>\<rparr>,
      toasts = [Loaded],
      timers = [], nextHandle = 1,
      frameRequested = True, listening = True, rendererDisposed = False\<rparr>"

text \<open>
  \<open>animate\<close> begins with \<^verbatim>\<open>requestAnimationFrame(animate)\<close>, outside every condition. Its
  body runs under the guard \<^verbatim>\<open>controls.isLocked && !gameWon && !gameOver && !isRespawning\<close>,
  which reads the render of the frame loop; the pointer is taken to be locked. The calls of the
  body are events of their own below.
\<close>

definition animate :: "session \<Rightarrow> session" where
  "animate s = s\<lparr>frameRequested := True\<rparr>"

definition frame_guard :: "render \<Rightarrow> bool" where
  "frame_guard c = (\<not> r_gameWon c \<and> \<not> r_gameOver c \<and> \<not> r_isRespawning c)"

text \<open>
  The function the mount effect returns: it removes the key and resize listeners and the lock
  listeners, detaches the canvas and disposes the renderer.
\<close>

definition cleanup :: "session \<Rightarrow> session" where
  "cleanup s = s\<lparr>listening := False, rendererDisposed := True\<rparr>"

text \<open>
  A change of the graphics quality, the time of day or the weather runs the effect again: first
  the cleanup above, then the effect body with a new camera, a new maze and exit, a new renderer
  and a new frame loop, whose closures are those of the render made now. The frame loop of the
  earlier run is not cancelled, but its controls are never locked again, so its body does not
  run any more.
\<close>

definition remount :: "grid \<Rightarrow> Position \<Rightarrow> session \<Rightarrow> session" where
  "remount maze exitPos s =
     (let s1 = cleanup s
      in s1\<lparr>cameraRef := Some \<lparr>vx = WALL_SIZE, vy = 16 / 10, vz = WALL_SIZE\<rparr>,
            mazeRef := maze,
            exitPositionRef := exitPos,
            captured := render_of s1,
            toasts := toasts s1 @ [Loaded],
            frameRequested := True, listening := True, rendererDisposed := False\<rparr>)"

text \<open>\<open>resetGame\<close> only calls setters and writes refs.\<close>

definition resetGame :: "session \<Rightarrow> session" where
  "resetGame s =
     (let s1 = s\<lparr>gameWon := False, gameOver := False, lives := 3, score := 0,
                 currentCheckpoint := \<lparr>pos_x = 1, pos_z = 1\<rparr>, isRespawning := False\<rparr>;
          s2 = (case cameraRef s1 of
                  None \<Rightarrow> s1
                | Some camera \<Rightarrow>
                    s1\<lparr>cameraRef := Some \<lparr>vx = WALL_SIZE, vy = 16 / 10, vz = WALL_SIZE\<rparr>,
                       playerPositionRef := \<lparr>pos_x = 1, pos_z = 1\<rparr>\<rparr>)
      in s2\<lparr>toasts := toasts s2 @ [GameReset]\<rparr>)"

text \<open>
  What can happen to a session. Within a frame whose guard holds, an enemy's attack lands
  (\<open>updateEnemies\<close> calls \<open>attackPlayer\<close>) or the win condition is checked: both are calls of
  the closures of the render of the frame loop. The host fires the timer with a given handle (if
  it is pending: the timer leaves the table and its callback runs) or runs the pending frame
  callback. The component is torn down; the settings change; the player resets the game.
  Movement and checkpoints touch neither timers nor lives and are not events here.
\<close>

datatype event =
  AttackPlayer
  | CheckWin
  | TimerFires nat real real
  | Frame
  | Cleanup
  | SettingsChange grid Position
  | ResetGame

definition step :: "event \<Rightarrow> session \<Rightarrow> session" where
  "step e s =
     (case e of
        AttackPlayer \<Rightarrow>
          if frame_guard (captured s) then attackPlayer (captured s) s else s
      | CheckWin \<Rightarrow>
          if frame_guard (captured s) then checkWinCondition (captured s) s else s
      | TimerFires h r1 r2 \<Rightarrow>
          (case map_of (timers s) h of
             None \<Rightarrow> s
           | Some checkpoint \<Rightarrow>
               respawnCallback checkpoint r1 r2
                 (s\<lparr>timers := filter (\<lambda>t. fst t \<noteq> h) (timers s)\<rparr>))
      | Frame \<Rightarrow> if frameRequested s then animate (s\<lparr>frameRequested := False\<rparr>) else s
      | Cleanup \<Rightarrow> cleanup s
      | SettingsChange maze exitPos \<Rightarrow> remount maze exitPos s
      | ResetGame \<Rightarrow> resetGame s)"

definition run :: "event list \<Rightarrow> session \<Rightarrow> session" where
  "run es s = fold step es s"

subsection \<open>Predicates on grids\<close>

text \<open>
  A grid of \<open>H\<close> rows of \<open>W\<close> cells; \<open>carved W H g g'\<close>: the grid \<open>g'\<close> has the shape of \<open>g\<close>
  and differs from it only in cells that \<open>isValidCell\<close> accepts and that are open in \<open>g'\<close>;
  an open cell; two cells that share a side; a path of open cells in which each cell shares a
  side with the next; and the existence of such a path between two cells.
\<close>

definition grid_shape :: "nat \<Rightarrow> nat \<Rightarrow> grid \<Rightarrow> bool" where
  "grid_shape W H g = (length g = H \<and> (\<forall>j < H. length (g ! j) = W))"

definition carved :: "int \<Rightarrow> int \<Rightarrow> grid \<Rightarrow> grid \<Rightarrow> bool" where
  "carved W H g g' =
     (length g' = length g \<and>
      (\<forall>j < length g. length (g' ! j) = length (g ! j) \<and>
         (\<forall>i < length (g ! j).
            g' ! j ! i = g ! j ! i \<or> (isValidCell W H (int i) (int j) \<and> g' ! j ! i = 0))))"

definition is_open :: "grid \<Rightarrow> int \<times> int \<Rightarrow> bool" where
  "is_open g p = (cell_eq g (fst p) (snd p) 0 = Inr True)"

definition adjacent4 :: "int \<times> int \<Rightarrow> int \<times> int \<Rightarrow> bool" where
  "adjacent4 p q = (\<bar>fst p - fst q\<bar> + \<bar>snd p - snd q\<bar> = 1)"

fun open_path :: "grid \<Rightarrow> (int \<times> int) list \<Rightarrow> bool" where
  "open_path g [] = False"
| "open_path g [p] = is_open g p"
| "open_path g (p # q # ps) = (is_open g p \<and> adjacent4 p q \<and> open_path g (q # ps))"

definition stair :: "grid \<Rightarrow> int \<times> int \<Rightarrow> int \<times> int \<Rightarrow> bool" where
  "stair g p q = (\<exists>ps. open_path g ps \<and> hd ps = p \<and> last ps = q)"

subsection \<open>The timer discipline\<close>

text \<open>
  The next handle is positive, and a pending timer, if there is one, is the only one and is the
  one recorded in \<open>respawnTimerRef\<close>.
\<close>

definition timer_inv :: "session \<Rightarrow> bool" where
  "timer_inv s =
     (0 < nextHandle s \<and>
      (timers s = [] \<or>
       (\<exists>h c. timers s = [(h, c)] \<and> respawnTimerRef s = Some h \<and> h \<noteq> 0)))"

subsection \<open>Sample inputs\<close>

text \<open>The grid that \<open>generate\<close> returns for 21 by 21 when every random number is 0.3.\<close>

definition serpentine :: grid where
  "serpentine =
     [[1, 1, 1, 1, 1, 1, 1, 1, 1, 1, 1, 1, 1, 1, 1, 1, 1, 1, 1, 1, 1],
      [1, 0, 1, 0, 0, 0, 1, 0, 0, 0, 1, 0, 0, 0, 1, 0, 0, 0, 1, 0, 1],
      [1, 0, 1, 0, 1, 0, 1, 0, 1, 0, 1, 0, 1, 0, 1, 0, 1, 0, 1, 0, 1],
      [1, 0, 1, 0, 1, 0, 1, 0, 1, 0, 1, 0, 1, 0, 1, 0, 1, 0, 1, 0, 1],
      [1, 0, 1, 0, 1, 0, 1, 0, 1, 0, 1, 0, 1, 0, 1, 0, 1, 0, 1, 0, 1],
      [1, 0, 1, 0, 1, 0, 1, 0, 1, 0, 1, 0, 1, 0, 1, 0, 1, 0, 1, 0, 1],
      [1, 0, 1, 0, 1, 0, 1, 0, 1, 0, 1, 0, 1, 0, 1, 0, 1, 0, 1, 0, 1],
      [1, 0, 1, 0, 1, 0, 1, 0, 1, 0, 1, 0, 1, 0, 1, 0, 1, 0, 1, 0, 1],
      [1, 0, 1, 0, 1, 0, 1, 0, 1, 0, 1, 0, 1, 0, 1, 0, 1, 0, 1, 0, 1],
      [1, 0, 1, 0, 1, 0, 1, 0, 1, 0, 1, 0, 1, 0, 1, 0, 1, 0, 1, 0, 1],
      [1, 0, 1, 0, 1, 0, 1, 0, 1, 0, 1, 0, 1, 0, 1, 0, 1, 0, 1, 0, 1],
      [1, 0, 1, 0, 1, 0, 1, 0, 1, 0, 1, 0, 1, 0, 1, 0, 1, 0, 1, 0, 1],
      [1, 0, 1, 0, 1, 0, 1, 0, 1, 0, 1, 0, 1, 0, 1, 0, 1, 0, 1, 0, 1],
      [1, 0, 1, 0, 1, 0, 1, 0, 1, 0, 1, 0, 1, 0, 1, 0, 1, 0, 1, 0, 1],
      [1, 0, 1, 0, 1, 0, 1, 0, 1, 0, 1, 0, 1, 0, 1, 0, 1, 0, 1, 0, 1],
      [1, 0, 1, 0, 1, 0, 1, 0, 1, 0, 1, 0, 1, 0, 1, 0, 1, 0, 1, 0, 1],
      [1, 0, 1, 0, 1, 0, 1, 0, 1, 0, 1, 0, 1, 0, 1, 0, 1, 0, 1, 0, 1],
      [1, 0, 1, 0, 1, 0, 1, 0, 1, 0, 1, 0, 1, 0, 1, 0, 1, 0, 1, 0, 1],
      [1, 0, 1, 0, 1, 0, 1, 0, 1, 0, 1, 0, 1, 0, 1, 0, 1, 0, 1, 0, 1],
      [1, 0, 0, 0, 0, 0, 0, 0, 0, 0, 0, 0, 0, 0, 0, 0, 0, 0, 0, 0, 1],
      [1, 1, 1, 1, 1, 1, 1, 1, 1, 1, 1, 1, 1, 1, 1, 1, 1, 1, 1, 1, 1]]"

text \<open>A mounted session on that grid.\<close>

definition fresh_session :: session where
  "fresh_session = mounted serpentine \<lparr>pos_x = 19, pos_z = 19\<rparr>"

text \<open>
  The same session with the camera in the open cell (18, 19), next to the exit; the player's
  cell is the rounded cell of the camera.
\<close>

definition at_exit :: session where
  "at_exit =
     fresh_session
       \<lparr>cameraRef := Some \<lparr>vx = 158 / 10, vy = 16 / 10, vz = 178 / 10\<rparr>,
        playerPositionRef := \<lparr>pos_x = 18, pos_z = 19\<rparr>\<rparr>"


text \<open>
  A candidate position inside the wall box of the cell (2, 1), and the centre of the open cell
  (1, 1).
\<close>

definition inside_wall :: Vector3 where
  "inside_wall = \<lparr>vx = - 1775 / 100, vy = 16 / 10, vz = - 1825 / 100\<rparr>"

definition open_centre :: Vector3 where
  "open_centre = \<lparr>vx = - 19, vy = 16 / 10, vz = - 19\<rparr>"

text \<open>
  The keys for forward and right are down. In \<open>blocked_basic\<close> the camera stands in the cell
  (1, 1) of the basic component, close to the wall cell (2, 1); in \<open>sliding\<close> it stands in the
  cell (1, 1) of the enhanced component, close to the same wall.
\<close>

definition keys_forward_right :: MoveState where
  "keys_forward_right = \<lparr>forward = True, backward = False, left = False, right = True\<rparr>"

definition blocked_basic :: session where
  "blocked_basic =
     fresh_session
       \<lparr>cameraRef := Some \<lparr>vx = - 1805 / 100, vy = 16 / 10, vz = - 19\<rparr>,
        moveStateRef := keys_forward_right\<rparr>"

definition sliding :: session where
  "sliding =
     fresh_session
       \<lparr>cameraRef := Some \<lparr>vx = - 1752 / 100, vy = 16 / 10, vz = - 18\<rparr>,
        moveStateRef := keys_forward_right\<rparr>"

section \<open>Properties\<close>

declare exit_loop.simps [simp del] scan_z.simps [simp del] scan_x.simps [simp del]

subsection \<open>Carving opens interior cells only and never fails\<close>

lemma nth_update2:
  "j < length g \<Longrightarrow> i < length (g ! j) \<Longrightarrow>
   g[b := (g ! b)[a := v]] ! j ! i = (if j = b \<and> i = a then v else g ! j ! i)"
  by (cases "j = b"; cases "i = a") simp_all

lemma length_update2:
  "j < length g \<Longrightarrow> length (g[b := (g ! b)[a := v]] ! j) = length (g ! j)"
  by (cases "j = b") simp_all

lemma carved_refl: "carved W H g g"
  by (simp add: carved_def)

lemma carved_length: "carved W H g g' \<Longrightarrow> length g' = length g"
  by (simp add: carved_def)

lemma carved_row: "carved W H g g' \<Longrightarrow> j < length g \<Longrightarrow> length (g' ! j) = length (g ! j)"
  by (simp add: carved_def)

lemma carved_cell:
  "carved W H g g' \<Longrightarrow> j < length g \<Longrightarrow> i < length (g ! j) \<Longrightarrow>
   g' ! j ! i = g ! j ! i \<or> (isValidCell W H (int i) (int j) \<and> g' ! j ! i = 0)"
  by (simp add: carved_def)

lemma carved_trans:
  assumes a: "carved W H g g1" and b: "carved W H g1 g2"
  shows "carved W H g g2"
  unfolding carved_def
proof (intro conjI allI impI)
  show "length g2 = length g" using carved_length[OF a] carved_length[OF b] by simp
next
  fix j assume j: "j < length g"
  then have j1: "j < length g1" using carved_length[OF a] by simp
  show "length (g2 ! j) = length (g ! j)"
    using carved_row[OF a j] carved_row[OF b j1] by simp
next
  fix j i assume j: "j < length g" and i: "i < length (g ! j)"
  then have j1: "j < length g1" and i1: "i < length (g1 ! j)"
    using carved_length[OF a] carved_row[OF a j] by simp_all
  from carved_cell[OF a j i] carved_cell[OF b j1 i1]
  show "g2 ! j ! i = g ! j ! i \<or> isValidCell W H (int i) (int j) \<and> g2 ! j ! i = 0"
    by auto
qed

lemma carved_shape: "carved W H g g' \<Longrightarrow> grid_shape w h g \<Longrightarrow> grid_shape w h g'"
  by (auto simp: carved_def grid_shape_def)

lemma is_open_iff:
  "is_open g (x, y) \<longleftrightarrow>
   0 \<le> y \<and> nat y < length g \<and> 0 \<le> x \<and> nat x < length (g ! nat y) \<and> g ! nat y ! nat x = 0"
  by (auto simp: is_open_def cell_eq_def)

lemma carved_open:
  assumes a: "carved W H g g'" and o: "is_open g p"
  shows "is_open g' p"
proof -
  obtain x y where p: "p = (x, y)" by (cases p)
  from o p have y: "0 \<le> y" "nat y < length g" and x: "0 \<le> x" "nat x < length (g ! nat y)"
    and c: "g ! nat y ! nat x = 0"
    by (simp_all add: is_open_iff)
  from carved_cell[OF a y(2) x(2)] c have "g' ! nat y ! nat x = 0" by auto
  then show ?thesis
    using x y carved_length[OF a] carved_row[OF a y(2)] by (simp add: p is_open_iff)
qed

lemma write_cell_valid:
  assumes "grid_shape w h g" "isValidCell (int w) (int h) x y"
  shows "\<exists>g1. write_cell g x y 0 = Inr g1 \<and> carved (int w) (int h) g g1 \<and> is_open g1 (x, y)"
proof -
  from assms have y: "0 \<le> y" "nat y < length g"
    by (auto simp: grid_shape_def isValidCell_def)
  from assms y have x: "0 \<le> x" "nat x < length (g ! nat y)"
    by (auto simp: grid_shape_def isValidCell_def)
  let ?g1 = "g[nat y := (g ! nat y)[nat x := 0]]"
  from x y have "y < int (length g)" "x < int (length (g ! nat y))" by linarith+
  with x y have w: "write_cell g x y 0 = Inr ?g1" by (simp add: write_cell_def)
  have "carved (int w) (int h) g ?g1"
    unfolding carved_def
  proof (intro conjI allI impI)
    show "length ?g1 = length g" by simp
  next
    fix j assume "j < length g"
    then show "length (?g1 ! j) = length (g ! j)" by (rule length_update2)
  next
    fix j i assume j: "j < length g" and i: "i < length (g ! j)"
    show "?g1 ! j ! i = g ! j ! i \<or> isValidCell (int w) (int h) (int i) (int j) \<and> ?g1 ! j ! i = 0"
    proof (cases "j = nat y \<and> i = nat x")
      case True
      with x y j i assms(2) show ?thesis by (simp add: nth_update2)
    next
      case False
      with j i have "?g1 ! j ! i = g ! j ! i" by (auto simp: nth_update2)
      then show ?thesis ..
    qed
  qed
  moreover have "is_open ?g1 (x, y)" using x y by (simp add: is_open_iff nth_update2 length_update2)
  ultimately show ?thesis using w by blast
qed

lemma shuffle_loop_ok:
  "rand_ok rnd \<Longrightarrow> i < length ds \<Longrightarrow> \<exists>ds' k'. shuffle_loop rnd i ds k = Inr (ds', k')"
proof (induction i arbitrary: ds k)
  case 0
  then show ?case by simp
next
  case (Suc i)
  let ?j = "\<lfloor>rnd k * (real (Suc i) + 1)\<rfloor>"
  from Suc.prems(1) have r: "0 \<le> rnd k" "rnd k < 1" by (auto simp: rand_ok_def)
  have "0 \<le> rnd k * (real (Suc i) + 1)" using r by simp
  then have j0: "0 \<le> ?j" by simp
  have "rnd k * (real (Suc i) + 1) < 1 * (real (Suc i) + 1)"
    using r by (intro mult_strict_right_mono) simp_all
  then have "?j < int (Suc i) + 1" by (simp add: floor_less_iff)
  with Suc.prems(2) have j1: "?j < int (length ds)" by simp
  from Suc.prems(2) have "i < length (ds[Suc i := ds ! nat ?j, nat ?j := ds ! Suc i])" by simp
  from Suc.IH[OF Suc.prems(1) this] j0 j1 show ?case by (simp add: Let_def)
qed

lemma shuffle_ok: "rand_ok rnd \<Longrightarrow> \<exists>ds k'. shuffle rnd k = Inr (ds, k')"
  unfolding shuffle_def by (rule shuffle_loop_ok) (simp_all add: directions_def)

lemma between_valid:
  "isValidCell W H x y \<Longrightarrow> isValidCell W H (x + dx) (y + dy) \<Longrightarrow>
   isValidCell W H (x + dx div 2) (y + dy div 2)"
  unfolding isValidCell_def by auto

lemma cell_eq_valid:
  "grid_shape w h g \<Longrightarrow> isValidCell (int w) (int h) x y \<Longrightarrow> \<exists>b. cell_eq g x y v = Inr b"
  by (auto simp: cell_eq_def isValidCell_def grid_shape_def)

lemma carve_ok:
  fixes w h :: nat
  shows "rand_ok rnd \<Longrightarrow> W = int w \<Longrightarrow> H = int h \<Longrightarrow> grid_shape w h (fst st) \<Longrightarrow>
         isValidCell W H x y \<Longrightarrow>
         \<exists>g' k'. carvePath rnd W H x y st = Inr (g', k') \<and> carved W H (fst st) g' \<and> is_open g' (x, y)"
    and "rand_ok rnd \<Longrightarrow> W = int w \<Longrightarrow> H = int h \<Longrightarrow> grid_shape w h (fst st') \<Longrightarrow>
         isValidCell W H x y \<Longrightarrow>
         \<exists>g' k'. carveDirs rnd W H x y ds st' = Inr (g', k') \<and> carved W H (fst st') g'"
proof (induction rnd W H x y st and rnd W H x y ds st' rule: carvePath_carveDirs.induct)
  case (1 rnd W H x y g k)
  from "1.prems" have sh: "grid_shape w h g" and v: "isValidCell (int w) (int h) x y" by simp_all
  from write_cell_valid[OF sh v] obtain g1 where
    w: "write_cell g x y 0 = Inr g1" and c1: "carved W H g g1" and o1: "is_open g1 (x, y)"
    using "1.prems" by auto
  from shuffle_ok[OF "1.prems"(1)] obtain ds k1 where s: "shuffle rnd k = Inr (ds, k1)" by blast
  have sh1: "grid_shape w h (fst (g1, k1))" using carved_shape[OF c1 sh] by simp
  from "1.IH"[OF w s refl "1.prems"(1,2,3) sh1 "1.prems"(5)] obtain g' k' where
    r: "carveDirs rnd W H x y ds (g1, k1) = Inr (g', k')" and c2: "carved W H g1 g'"
    by auto
  have "carvePath rnd W H x y (g, k) = Inr (g', k')" using w s r by simp
  moreover have "carved W H g g'" using c1 c2 by (rule carved_trans)
  moreover have "is_open g' (x, y)" using c2 o1 by (rule carved_open)
  ultimately show ?case by simp
next
  case (2 rnd W H x y st)
  then show ?case by (cases st) (simp add: carved_refl)
next
  case (3 rnd W H x y dx dy ds g k)
  from "3.prems" have sh: "grid_shape w h g" and WH: "W = int w" "H = int h" by simp_all
  show ?case
  proof (cases "isValidCell W H (x + dx) (y + dy)")
    case False
    from "3.IH"(4)[OF refl refl False "3.prems"(1,2,3) _ "3.prems"(5)] sh False
    show ?thesis by simp
  next
    case True
    from cell_eq_valid[OF sh, of "x + dx" "y + dy" 1] True WH
    obtain b where b: "cell_eq g (x + dx) (y + dy) 1 = Inr b" by auto
    show ?thesis
    proof (cases b)
      case False
      from "3.IH"(3)[OF refl refl True b False "3.prems"(1,2,3) _ "3.prems"(5)] sh True b False
      show ?thesis by simp
    next
      case bT: True
      have "isValidCell (int w) (int h) (x + dx div 2) (y + dy div 2)"
        using between_valid[OF "3.prems"(5) True] WH by simp
      from write_cell_valid[OF sh this] obtain g1 where
        w: "write_cell g (x + dx div 2) (y + dy div 2) 0 = Inr g1" and c1: "carved W H g g1"
        using WH by auto
      have sh1: "grid_shape w h (fst (g1, k))" using carved_shape[OF c1 sh] by simp
      from "3.IH"(1)[OF refl refl True b bT w "3.prems"(1,2,3) sh1 True] obtain g2 k2 where
        p: "carvePath rnd W H (x + dx) (y + dy) (g1, k) = Inr (g2, k2)" and c2: "carved W H g1 g2"
        by auto
      have sh2: "grid_shape w h (fst (g2, k2))"
        using carved_shape[OF c2] sh1 by simp
      from "3.IH"(2)[OF refl refl True b bT w p "3.prems"(1,2,3) sh2 "3.prems"(5)] obtain g' k' where
        r: "carveDirs rnd W H x y ds (g2, k2) = Inr (g', k')" and c3: "carved W H g2 g'"
        by auto
      have "carveDirs rnd W H x y ((dx, dy) # ds) (g, k) = Inr (g', k')"
        using True b bT w p r by simp
      moreover have "carved W H g g'" using carved_trans[OF carved_trans[OF c1 c2] c3] .
      ultimately show ?thesis by simp
    qed
  qed
qed

lemma stair_refl: "is_open g p \<Longrightarrow> stair g p p"
  unfolding stair_def by (rule exI[of _ "[p]"]) simp

lemma stair_step: "is_open g p \<Longrightarrow> adjacent4 p q \<Longrightarrow> stair g q r \<Longrightarrow> stair g p r"
proof -
  assume o: "is_open g p" and a: "adjacent4 p q" and s: "stair g q r"
  then obtain ps where ps: "open_path g ps" "hd ps = q" "last ps = r" by (auto simp: stair_def)
  then obtain qs where qs: "ps = q # qs" by (cases ps) auto
  have "open_path g (p # ps)" using o a ps(1) by (simp add: qs)
  moreover have "hd (p # ps) = p" by simp
  moreover have "last (p # ps) = r" using ps(3) qs by simp
  ultimately show ?thesis unfolding stair_def by blast
qed

lemma exit_loop_ok:
  fixes w h :: nat
  shows "grid_shape w h (fst st) \<Longrightarrow> exitX = int w - 2 \<Longrightarrow> exitY = int h - 2 \<Longrightarrow>
    1 \<le> currentX \<Longrightarrow> currentX \<le> exitX \<Longrightarrow> 1 \<le> currentY \<Longrightarrow> currentY \<le> exitY \<Longrightarrow>
    \<exists>g' k'. exit_loop rnd exitX exitY currentX currentY st = Inr (g', k') \<and>
      carved (int w) (int h) (fst st) g' \<and>
      (\<forall>g''. carved (int w) (int h) g' g'' \<longrightarrow> is_open g'' (exitX, exitY) \<longrightarrow>
         stair g'' (currentX, currentY) (exitX, exitY))"
proof (induction rnd exitX exitY currentX currentY st rule: exit_loop.induct)
  case (1 rnd exitX exitY currentX currentY g k)
  note prems = "1.prems"
  from prems have sh: "grid_shape w h g" by simp
  show ?case
  proof (cases "currentX < exitX \<or> currentY < exitY")
    case False
    with prems have e: "currentX = exitX" "currentY = exitY" by auto
    from False have "exit_loop rnd exitX exitY currentX currentY (g, k) = Inr (g, k)"
      by (simp add: exit_loop.simps)
    then show ?thesis using e by (auto simp: carved_refl intro: stair_refl)
  next
    case True
    have v: "isValidCell (int w) (int h) currentX currentY"
      using prems by (auto simp: isValidCell_def)
    from write_cell_valid[OF sh v] obtain g1 where
      w: "write_cell g currentX currentY 0 = Inr g1" and c1: "carved (int w) (int h) g g1"
      and o1: "is_open g1 (currentX, currentY)" by auto
    define k1 where "k1 = (if currentX < exitX then Suc k else k)"
    have sh1: "grid_shape w h (fst (g1, k1))" using carved_shape[OF c1 sh] by simp
    have step: ?thesis
      if eq: "exit_loop rnd exitX exitY currentX currentY (g, k) = exit_loop rnd exitX exitY nx ny (g1, k1)"
        and adj: "adjacent4 (currentX, currentY) (nx, ny)"
        and ih: "\<exists>g' k'. exit_loop rnd exitX exitY nx ny (g1, k1) = Inr (g', k') \<and>
          carved (int w) (int h) (fst (g1, k1)) g' \<and>
          (\<forall>g''. carved (int w) (int h) g' g'' \<longrightarrow> is_open g'' (exitX, exitY) \<longrightarrow>
             stair g'' (nx, ny) (exitX, exitY))" for nx ny
    proof -
      from ih obtain g' k' where r: "exit_loop rnd exitX exitY nx ny (g1, k1) = Inr (g', k')"
        and c2: "carved (int w) (int h) g1 g'"
        and p: "\<And>g''. carved (int w) (int h) g' g'' \<Longrightarrow> is_open g'' (exitX, exitY) \<Longrightarrow>
             stair g'' (nx, ny) (exitX, exitY)" by auto
      have "stair g'' (currentX, currentY) (exitX, exitY)"
        if a: "carved (int w) (int h) g' g''" and b: "is_open g'' (exitX, exitY)" for g''
      proof -
        have "is_open g'' (currentX, currentY)"
          using carved_open[OF a carved_open[OF c2 o1]] .
        then show ?thesis using adj p[OF a b] by (rule stair_step)
      qed
      then show ?thesis using eq r carved_trans[OF c1 c2] by auto
    qed
    show ?thesis
    proof (cases "currentX < exitX \<and> 3 / 10 < rnd k")
      case A: True
      have eq: "exit_loop rnd exitX exitY currentX currentY (g, k) =
                exit_loop rnd exitX exitY (currentX + 1) currentY (g1, k1)"
        using True A w by (simp add: exit_loop.simps[of _ _ _ currentX currentY] k1_def)
      have "adjacent4 (currentX, currentY) (currentX + 1, currentY)" by (simp add: adjacent4_def)
      moreover from "1.IH"(1)[OF True w k1_def A sh1 prems(2,3)] prems A
      have "\<exists>g' k'. exit_loop rnd exitX exitY (currentX + 1) currentY (g1, k1) = Inr (g', k') \<and>
          carved (int w) (int h) (fst (g1, k1)) g' \<and>
          (\<forall>g''. carved (int w) (int h) g' g'' \<longrightarrow> is_open g'' (exitX, exitY) \<longrightarrow>
             stair g'' (currentX + 1, currentY) (exitX, exitY))" by simp
      ultimately show ?thesis using eq by (intro step)
    next
      case A: False
      show ?thesis
      proof (cases "currentY < exitY")
        case B: True
        have eq: "exit_loop rnd exitX exitY currentX currentY (g, k) =
                  exit_loop rnd exitX exitY currentX (currentY + 1) (g1, k1)"
          using True A B w by (simp add: exit_loop.simps[of _ _ _ currentX currentY] k1_def)
        have "adjacent4 (currentX, currentY) (currentX, currentY + 1)" by (simp add: adjacent4_def)
        moreover from "1.IH"(2)[OF True w k1_def A B sh1 prems(2,3)] prems B
        have "\<exists>g' k'. exit_loop rnd exitX exitY currentX (currentY + 1) (g1, k1) = Inr (g', k') \<and>
            carved (int w) (int h) (fst (g1, k1)) g' \<and>
            (\<forall>g''. carved (int w) (int h) g' g'' \<longrightarrow> is_open g'' (exitX, exitY) \<longrightarrow>
               stair g'' (currentX, currentY + 1) (exitX, exitY))" by simp
        ultimately show ?thesis using eq by (intro step)
      next
        case B: False
        with True have C: "currentX < exitX" by simp
        have eq: "exit_loop rnd exitX exitY currentX currentY (g, k) =
                  exit_loop rnd exitX exitY (currentX + 1) currentY (g1, k1)"
          using True A B C w by (simp add: exit_loop.simps[of _ _ _ currentX currentY] k1_def)
        have "adjacent4 (currentX, currentY) (currentX + 1, currentY)" by (simp add: adjacent4_def)
        moreover from "1.IH"(3)[OF True w k1_def A B C sh1 prems(2,3)] prems C
        have "\<exists>g' k'. exit_loop rnd exitX exitY (currentX + 1) currentY (g1, k1) = Inr (g', k') \<and>
            carved (int w) (int h) (fst (g1, k1)) g' \<and>
            (\<forall>g''. carved (int w) (int h) g' g'' \<longrightarrow> is_open g'' (exitX, exitY) \<longrightarrow>
               stair g'' (currentX + 1, currentY) (exitX, exitY))" by simp
        ultimately show ?thesis using eq by (intro step)
      qed
    qed
  qed
qed

lemma init_maze_shape: "grid_shape W H (init_maze W H)"
  by (simp add: grid_shape_def init_maze_def)

lemma generate_ok:
  assumes r: "rand_ok rnd" and W: "3 \<le> W" and H: "3 \<le> H"
  shows "\<exists>g. generate rnd W H = Inr g \<and> carved (int W) (int H) (init_maze W H) g \<and>
           is_open g (1, 1) \<and> is_open g (int W - 2, int H - 2) \<and>
           stair g (1, 1) (int W - 2, int H - 2)"
proof -
  have v: "isValidCell (int W) (int H) 1 1" using W H by (simp add: isValidCell_def)
  have sh0: "grid_shape W H (fst (init_maze W H, 0::nat))" by (simp add: init_maze_shape)
  from carve_ok(1)[OF r refl refl sh0 v] obtain g1 k1 where
    c: "carvePath rnd (int W) (int H) 1 1 (init_maze W H, 0) = Inr (g1, k1)"
    and c1: "carved (int W) (int H) (init_maze W H) g1" and o1: "is_open g1 (1, 1)"
    by auto
  have sh1: "grid_shape W H (fst (g1, k1))" using carved_shape[OF c1 init_maze_shape] by simp
  have b: "(1::int) \<le> int W - 2" "(1::int) \<le> int H - 2" using W H by simp_all
  from exit_loop_ok[OF sh1 refl refl _ b(1) _ b(2), of rnd] obtain g2 k2 where
    e: "exit_loop rnd (int W - 2) (int H - 2) 1 1 (g1, k1) = Inr (g2, k2)"
    and c2: "carved (int W) (int H) g1 g2"
    and p: "\<And>g''. carved (int W) (int H) g2 g'' \<Longrightarrow> is_open g'' (int W - 2, int H - 2) \<Longrightarrow>
              stair g'' (1, 1) (int W - 2, int H - 2)"
    by auto
  have sh2: "grid_shape W H g2" using carved_shape[OF c2] sh1 by simp
  have ve: "isValidCell (int W) (int H) (int W - 2) (int H - 2)"
    using W H by (simp add: isValidCell_def)
  from write_cell_valid[OF sh2 ve] obtain g3 where
    w: "write_cell g2 (int W - 2) (int H - 2) 0 = Inr g3" and c3: "carved (int W) (int H) g2 g3"
    and o3: "is_open g3 (int W - 2, int H - 2)" by auto
  have "generate rnd W H = Inr g3"
    using c e w by (simp add: generate_def ensureExitPath_def)
  moreover have "carved (int W) (int H) (init_maze W H) g3"
    using carved_trans[OF carved_trans[OF c1 c2] c3] .
  moreover have "is_open g3 (1, 1)" using carved_open[OF c3 carved_open[OF c2 o1]] .
  moreover have "stair g3 (1, 1) (int W - 2, int H - 2)" using p[OF c3 o3] .
  ultimately show ?thesis using o3 by blast
qed

lemma find_exit_corner:
  "is_open g (MAZE_SIZE - 2, MAZE_SIZE - 2) \<Longrightarrow>
   find_exit g = Inr \<lparr>pos_x = MAZE_SIZE - 2, pos_z = MAZE_SIZE - 2\<rparr>"
  by (simp add: find_exit_def scan_x.simps scan_z.simps is_open_def)

text \<open>
  The bound on the dimensions in the statements below is needed: with a single row,
  \<^verbatim>\<open>this.maze[1]\<close> is undefined and the first write of \<open>carvePath\<close> raises.
\<close>

lemma generate_single_row: "generate rnd W 1 = Inl TypeError"
  by (simp add: generate_def init_maze_def write_cell_def)

text \<open>The model runs: the sample grid is what \<open>generate\<close> computes.\<close>

lemma generate_serpentine: "generate (\<lambda>k. 3 / 10) 21 21 = Inr serpentine"
  unfolding serpentine_def by code_simp

text \<open>
  C7: for every stream of random numbers and all dimensions from 3 on, \<open>generate\<close> returns a
  grid of \<open>H\<close> rows of \<open>W\<close> cells in which every cell of row 0, row \<open>H - 1\<close>, column 0 and
  column \<open>W - 1\<close> is a wall and the cell (1, 1) is open.
\<close>

theorem generate_border:
  assumes "rand_ok rnd" and "3 \<le> W" and "3 \<le> H"
  shows "\<exists>g. generate rnd W H = Inr g \<and> grid_shape W H g \<and>
           (\<forall>y < H. \<forall>x < W. (y = 0 \<or> y = H - 1 \<or> x = 0 \<or> x = W - 1) \<longrightarrow> g ! y ! x = 1) \<and>
           g ! 1 ! 1 = 0"
proof -
  from generate_ok[OF assms] obtain g where g: "generate rnd W H = Inr g"
    and c: "carved (int W) (int H) (init_maze W H) g" and o: "is_open g (1, 1)" by blast
  have sh: "grid_shape W H g" using carved_shape[OF c init_maze_shape] .
  have "g ! y ! x = 1" if y: "y < H" and x: "x < W"
    and b: "y = 0 \<or> y = H - 1 \<or> x = 0 \<or> x = W - 1" for x y
  proof -
    have "\<not> isValidCell (int W) (int H) (int x) (int y)"
      using b y x by (auto simp: isValidCell_def)
    moreover have "y < length (init_maze W H)" "x < length (init_maze W H ! y)"
      using x y by (simp_all add: init_maze_def)
    ultimately have "g ! y ! x = init_maze W H ! y ! x" using carved_cell[OF c] by blast
    then show ?thesis using x y by (simp add: init_maze_def)
  qed
  moreover have "g ! 1 ! 1 = 0" using o by (simp add: is_open_iff)
  ultimately show ?thesis using g sh by blast
qed

text \<open>C7, witness: a 21 by 21 grid, with the random numbers all 0.3.\<close>

theorem generate_border_witness:
  "rand_ok (\<lambda>k. 3 / 10) \<and>
   (\<exists>g. generate (\<lambda>k. 3 / 10) 21 21 = Inr g \<and> grid_shape 21 21 g \<and>
      g ! 0 ! 5 = 1 \<and> g ! 20 ! 5 = 1 \<and> g ! 7 ! 0 = 1 \<and> g ! 7 ! 20 = 1 \<and> g ! 1 ! 1 = 0)"
proof -
  have r: "rand_ok (\<lambda>k. 3 / 10)" by (simp add: rand_ok_def)
  from generate_border[OF r, of 21 21] obtain g where
    g: "generate (\<lambda>k. 3 / 10) 21 21 = Inr g" "grid_shape 21 21 g" "g ! 1 ! 1 = 0"
    and b: "\<And>x y. y < 21 \<Longrightarrow> x < 21 \<Longrightarrow> y = 0 \<or> y = 20 \<or> x = 0 \<or> x = 20 \<Longrightarrow> g ! y ! x = 1"
    by auto
  have "g ! 0 ! 5 = 1" "g ! 20 ! 5 = 1" "g ! 7 ! 0 = 1" "g ! 7 ! 20 = 1"
    by (rule b; simp)+
  with r g show ?thesis by blast
qed

text \<open>
  C6: \<open>carvePath\<close>, its loop over the directions and the loop of \<open>ensureExitPath\<close> are total
  functions (the termination proofs above: the carving recursion by the number of walls left,
  the exit loop by the remaining distance in columns plus rows), and for every stream of random
  numbers and all dimensions from 3 on \<open>generate\<close> returns a grid, never an error.
\<close>

theorem generate_returns:
  assumes "rand_ok rnd" and "3 \<le> W" and "3 \<le> H"
  shows "\<exists>g. generate rnd W H = Inr g \<and> grid_shape W H g"
proof -
  from generate_ok[OF assms] obtain g where g: "generate rnd W H = Inr g"
    and c: "carved (int W) (int H) (init_maze W H) g" by blast
  from carved_shape[OF c init_maze_shape] g show ?thesis by blast
qed

text \<open>C6, witness: a 21 by 21 grid, with the random numbers all 0.3.\<close>

theorem generate_returns_witness:
  "rand_ok (\<lambda>k. 3 / 10) \<and> (\<exists>g. generate (\<lambda>k. 3 / 10) 21 21 = Inr g \<and> grid_shape 21 21 g)"
proof -
  have r: "rand_ok (\<lambda>k. 3 / 10)" by (simp add: rand_ok_def)
  from generate_returns[OF r, of 21 21] r show ?thesis by auto
qed

text \<open>
  C10: for every stream of random numbers, the exit scan on the generated 21 by 21 grid ends
  with the exit at (19, 19).
\<close>

theorem exit_is_far_corner:
  assumes "rand_ok rnd"
  shows "\<exists>g. generate rnd (nat MAZE_SIZE) (nat MAZE_SIZE) = Inr g \<and>
           find_exit g = Inr \<lparr>pos_x = 19, pos_z = 19\<rparr>"
proof -
  have "3 \<le> nat MAZE_SIZE" by (simp add: MAZE_SIZE_def)
  from generate_ok[OF assms this this] obtain g where
    g: "generate rnd (nat MAZE_SIZE) (nat MAZE_SIZE) = Inr g"
    and o: "is_open g (int (nat MAZE_SIZE) - 2, int (nat MAZE_SIZE) - 2)" by blast
  from o have "is_open g (MAZE_SIZE - 2, MAZE_SIZE - 2)" by (simp add: MAZE_SIZE_def)
  from find_exit_corner[OF this] g show ?thesis by (auto simp: MAZE_SIZE_def)
qed

text \<open>C10, witness: the random numbers all 0.3.\<close>

theorem exit_is_far_corner_witness:
  "rand_ok (\<lambda>k. 3 / 10) \<and>
   (\<exists>g. generate (\<lambda>k. 3 / 10) 21 21 = Inr g \<and> find_exit g = Inr \<lparr>pos_x = 19, pos_z = 19\<rparr>)"
proof -
  have r: "rand_ok (\<lambda>k. 3 / 10)" by (simp add: rand_ok_def)
  from exit_is_far_corner[OF r] r show ?thesis by (simp add: MAZE_SIZE_def)
qed

text \<open>
  C1: for every stream of random numbers, the generated 21 by 21 grid has a path of open cells,
  each sharing a side with the next, from (1, 1) to the exit cell that the exit scan chooses.
\<close>

theorem exit_reachable:
  assumes "rand_ok rnd"
  shows "\<exists>g e ps. generate rnd 21 21 = Inr g \<and> find_exit g = Inr e \<and>
           open_path g ps \<and> hd ps = (1, 1) \<and> last ps = (pos_x e, pos_z e)"
proof -
  from generate_ok[OF assms, of 21 21] obtain g where
    g: "generate rnd 21 21 = Inr g"
    and o: "is_open g (19, 19)" and s: "stair g (1, 1) (19, 19)" by auto
  from o have "is_open g (MAZE_SIZE - 2, MAZE_SIZE - 2)" by (simp add: MAZE_SIZE_def)
  from find_exit_corner[OF this] have e: "find_exit g = Inr \<lparr>pos_x = 19, pos_z = 19\<rparr>"
    by (simp add: MAZE_SIZE_def)
  from s obtain ps where "open_path g ps" "hd ps = (1, 1)" "last ps = (19, 19)"
    by (auto simp: stair_def)
  with g e show ?thesis by (intro exI[of _ g] exI[of _ "\<lparr>pos_x = 19, pos_z = 19\<rparr>"] exI[of _ ps]) simp
qed

text \<open>C1, witness: the random numbers all 0.3.\<close>

theorem exit_reachable_witness:
  "rand_ok (\<lambda>k. 3 / 10) \<and>
   (\<exists>g e ps. generate (\<lambda>k. 3 / 10) 21 21 = Inr g \<and> find_exit g = Inr e \<and>
      open_path g ps \<and> hd ps = (1, 1) \<and> last ps = (pos_x e, pos_z e))"
proof -
  have r: "rand_ok (\<lambda>k. 3 / 10)" by (simp add: rand_ok_def)
  from exit_reachable[OF r] r show ?thesis by simp
qed

subsection \<open>Distances on the grid\<close>

lemma sqrt_less_iff_sq: "0 \<le> c \<Longrightarrow> sqrt a < c \<longleftrightarrow> a < c\<^sup>2"
proof -
  assume c: "0 \<le> c"
  then have "sqrt (c\<^sup>2) = c" by simp
  then have "sqrt a < c \<longleftrightarrow> sqrt a < sqrt (c\<^sup>2)" by simp
  then show ?thesis by (simp only: real_sqrt_less_iff)
qed

lemma grid_distance_less_iff:
  "0 \<le> c \<Longrightarrow> grid_distance x1 z1 x2 z2 < c \<longleftrightarrow> real_of_int ((x1 - x2)\<^sup>2 + (z1 - z2)\<^sup>2) < c\<^sup>2"
  unfolding grid_distance_def by (rule sqrt_less_iff_sq)

subsection \<open>Spawn validation\<close>

lemma used_positions_ok_iff:
  "used_positions_ok x z ps \<longleftrightarrow> (\<forall>pos \<in> set ps. 4 \<le> grid_distance x z (pos_x pos) (pos_z pos))"
  by (induction ps) (auto simp: not_less)

text \<open>
  C5 as stated fails: the cell (9, 1) of the sample grid is open and lies at distance exactly 8
  from the player spawn (1, 1); \<open>isValidSpawnLocation\<close> accepts it, while the claim asks for a
  distance that exceeds 8.
\<close>

theorem isValidSpawnLocation_counterexample:
  "isValidSpawnLocation 9 1 serpentine [] = Inr True \<and> \<not> spawn_valid_spec 9 1 serpentine []"
  by (simp add: isValidSpawnLocation_def spawn_valid_spec_def cell_eq_def MIN_SPAWN_DISTANCE_def
      serpentine_def grid_distance_less_iff not_less) (simp add: grid_distance_def)

text \<open>
  C5, amended: for a cell (x, z) inside a grid of walls and open cells, \<open>isValidSpawnLocation\<close>
  returns true if and only if the cell is open, its distance from the player spawn (1, 1) is at
  least the minimum spawn distance 8, and its distance from every position placed before is at
  least 4.
\<close>

theorem isValidSpawnLocation_iff:
  assumes "0 \<le> z" "z < int (length maze)" "0 \<le> x" "x < int (length (maze ! nat z))"
    and "maze ! nat z ! nat x = 0 \<or> maze ! nat z ! nat x = 1"
  shows "isValidSpawnLocation x z maze usedPositions =
           Inr (maze ! nat z ! nat x = 0 \<and>
                MIN_SPAWN_DISTANCE \<le> grid_distance x z 1 1 \<and>
                (\<forall>pos \<in> set usedPositions. 4 \<le> grid_distance x z (pos_x pos) (pos_z pos)))"
  using assms
  by (auto simp: isValidSpawnLocation_def cell_eq_def used_positions_ok_iff not_less)

text \<open>
  C5, witness: the cell (9, 1) of the sample grid with a position placed before at (5, 1), at
  distance exactly 4, is accepted.
\<close>

theorem isValidSpawnLocation_witness:
  "isValidSpawnLocation 9 1 serpentine [\<lparr>pos_x = 5, pos_z = 1\<rparr>] = Inr True"
  using isValidSpawnLocation_iff[of 1 serpentine 9 "[\<lparr>pos_x = 5, pos_z = 1\<rparr>]"]
  by (simp add: MIN_SPAWN_DISTANCE_def grid_distance_def serpentine_def)

subsection \<open>Damage with one life left\<close>

text \<open>
  What \<open>attackPlayer\<close> does depends on the render it belongs to, not on the lives the session
  has: it stores the lives of its render less one, and it ends the game only if that number is
  not positive.
\<close>

lemma attackPlayer_render:
  "\<not> r_isRespawning c \<Longrightarrow>
   lives (attackPlayer c s) = r_lives c - 1 \<and>
   (gameOver (attackPlayer c s) \<longleftrightarrow> gameOver s \<or> r_lives c \<le> 1)"
  by (auto simp: attackPlayer_def respawnPlayer_def setTimeout_def clearTimeout_def Let_def
      split: option.splits)


subsection \<open>Win threshold\<close>

text \<open>
  The transition fires exactly when the grid distance from the player to the exit is below 1.5
  and the render of the function has not seen the game won; it then sets \<open>gameWon\<close>.
\<close>

lemma checkWinCondition_fires:
  "(checkWinCondition c s \<noteq> s \<longleftrightarrow>
      grid_distance (pos_x (playerPositionRef s)) (pos_z (playerPositionRef s))
        (pos_x (exitPositionRef s)) (pos_z (exitPositionRef s)) < 15 / 10 \<and> \<not> r_gameWon c) \<and>
   (checkWinCondition c s \<noteq> s \<longrightarrow> gameWon (checkWinCondition c s))"
proof -
  have "s\<lparr>gameWon := True, score := n, toasts := toasts s @ [t]\<rparr> \<noteq> s" for n t
  proof
    assume "s\<lparr>gameWon := True, score := n, toasts := toasts s @ [t]\<rparr> = s"
    then have "toasts (s\<lparr>gameWon := True, score := n, toasts := toasts s @ [t]\<rparr>) = toasts s"
      by simp
    then show False by simp
  qed
  then show ?thesis by (simp add: checkWinCondition_def Let_def)
qed

lemma near_exit: "grid_distance 18 19 19 19 < 15 / 10"
  by (subst grid_distance_less_iff) (simp_all add: power2_eq_square)

lemma at_exit_cell:
  "cameraRef at_exit = Some p \<Longrightarrow> playerPositionRef at_exit = player_cell p"
  by (auto simp: at_exit_def player_cell_def worldToMaze_def MAZE_SIZE_def WALL_SIZE_def
      round_def floor_eq_iff)

text \<open>
  C9: the threshold holds, but detecting the exit again when the game is already won is not
  a no-op in the running component. With the player's cell next to the exit, the first check
  wins the game with the score 150. The frame loop still holds the first render, in
  which the game is not won: the second check differs from the first by another toast, and it
  stores the score 150 again over a score that has changed since (250 after a checkpoint). The
  basic component repeats its toast in the same way.
\<close>

theorem checkWinCondition_repeats:
  "gameWon (run [CheckWin] at_exit) \<and>
   score (run [CheckWin] at_exit) = 150 \<and>
   toasts (run [CheckWin] at_exit) = [Loaded, Escaped 150] \<and>
   toasts (run [CheckWin, CheckWin] at_exit) = [Loaded, Escaped 150, Escaped 150] \<and>
   run [CheckWin, CheckWin] at_exit \<noteq> run [CheckWin] at_exit \<and>
   score (checkWinCondition (captured at_exit) ((run [CheckWin] at_exit)\<lparr>score := 250\<rparr>)) = 150 \<and>
   toasts (checkWinCondition_basic (captured at_exit)
             (checkWinCondition_basic (captured at_exit) at_exit)) =
     [Loaded, Escaped_basic, Escaped_basic]"
proof -
  have sel: "playerPositionRef at_exit = \<lparr>pos_x = 18, pos_z = 19\<rparr>"
    "exitPositionRef at_exit = \<lparr>pos_x = 19, pos_z = 19\<rparr>"
    "toasts at_exit = [Loaded]"
    "captured at_exit =
       \<lparr>r_gameWon = False, r_gameOver = False, r_lives = 3, r_score = 0,
        r_isRespawning = False, r_currentCheckpoint = \<lparr>pos_x = 1, pos_z = 1\<rparr>\<rparr>"
    by (simp_all add: at_exit_def fresh_session_def mounted_def)
  have one: "run [CheckWin] at_exit =
      at_exit\<lparr>gameWon := True, score := 150, toasts := [Loaded, Escaped 150]\<rparr>"
    using near_exit by (simp add: run_def step_def frame_guard_def checkWinCondition_def sel Let_def)
  have two: "run [CheckWin, CheckWin] at_exit =
      at_exit\<lparr>gameWon := True, score := 150, toasts := [Loaded, Escaped 150, Escaped 150]\<rparr>"
    using near_exit by (simp add: run_def step_def frame_guard_def checkWinCondition_def sel Let_def)
  have "toasts (run [CheckWin, CheckWin] at_exit) \<noteq> toasts (run [CheckWin] at_exit)"
    by (simp add: one two)
  then have neq: "run [CheckWin, CheckWin] at_exit \<noteq> run [CheckWin] at_exit" by auto
  have again: "score (checkWinCondition (captured at_exit) ((run [CheckWin] at_exit)\<lparr>score := 250\<rparr>)) = 150"
    using near_exit by (simp add: one checkWinCondition_def sel Let_def)
  have basic: "toasts (checkWinCondition_basic (captured at_exit)
             (checkWinCondition_basic (captured at_exit) at_exit)) =
     [Loaded, Escaped_basic, Escaped_basic]"
    using near_exit by (simp add: checkWinCondition_basic_def sel Let_def)
  show ?thesis using neq again basic by (simp add: one two)
qed

subsection \<open>Collision test\<close>

lemma open_not_wall: "cell_eq g x y 0 = Inr True \<Longrightarrow> cell_eq g x y 1 = Inr False"
  by (auto simp: cell_eq_def split: if_splits)

lemma serpentine_cells:
  "cell_eq serpentine 2 1 1 = Inr True" "is_open serpentine (1, 1)"
  by (simp_all add: serpentine_def cell_eq_def is_open_def)

lemma serpentine_cell_1_1: "cell_eq serpentine 1 1 1 = Inr False"
  by (simp add: serpentine_def cell_eq_def)

lemma serpentine_cell_0_1: "cell_eq serpentine 0 1 1 = Inr True"
  by (simp add: serpentine_def cell_eq_def)

text \<open>
  C3 fails for the enhanced component. \<open>createMaze\<close> centres the wall of a cell on the cell's
  world position and the component rounds a world position to find its cell, as the basic
  \<open>checkCollision\<close> does; the enhanced \<open>checkCollision\<close> floors instead, so its cells are
  shifted by half a cell. On the generated sample grid, the position \<open>inside_wall\<close> lies inside
  the wall box of the wall cell (2, 1), which is also its rounded cell, and is accepted (the
  basic test rejects it). The centre of the open cell (1, 1), whose five samples all round to
  that open cell, is rejected (the basic test accepts it).
\<close>

theorem checkCollision_half_cell_shift:
  "inside_wall_box 2 1 inside_wall \<and>
   player_cell inside_wall = \<lparr>pos_x = 2, pos_z = 1\<rparr> \<and>
   cell_eq serpentine 2 1 1 = Inr True \<and>
   checkCollision serpentine inside_wall = Inr False \<and>
   checkCollision_basic serpentine inside_wall = Inr True \<and>
   player_cell open_centre = \<lparr>pos_x = 1, pos_z = 1\<rparr> \<and>
   is_open serpentine (1, 1) \<and>
   map (\<lambda>(sx, sz). (round sx, round sz))
     (checkPositions (worldToMaze (vx open_centre)) (worldToMaze (vz open_centre))) =
     [(1, 1), (1, 1), (1, 1), (1, 1), (1, 1)] \<and>
   checkCollision serpentine open_centre = Inr True \<and>
   checkCollision_basic serpentine open_centre = Inr False"
proof -
  have w: "worldToMaze (vx inside_wall) = 13 / 8" "worldToMaze (vz inside_wall) = 11 / 8"
    "worldToMaze (vx open_centre) = 1" "worldToMaze (vz open_centre) = 1"
    by (simp_all add: inside_wall_def open_centre_def worldToMaze_def MAZE_SIZE_def WALL_SIZE_def)
  have fl: "\<lfloor>13 / 8 :: real\<rfloor> = 1" "\<lfloor>15 / 8 :: real\<rfloor> = 1" "\<lfloor>11 / 8 :: real\<rfloor> = 1"
    "\<lfloor>9 / 8 :: real\<rfloor> = 1" "\<lfloor>5 / 4 :: real\<rfloor> = 1" "\<lfloor>3 / 4 :: real\<rfloor> = 0"
    by (simp_all add: floor_eq_iff)
  have rd: "round (13 / 8 :: real) = 2" "round (11 / 8 :: real) = 1" "round (1 :: real) = 1"
    "round (5 / 4 :: real) = 1" "round (3 / 4 :: real) = 1"
    by (simp_all add: round_def floor_eq_iff)
  have box: "inside_wall_box 2 1 inside_wall"
    by (simp add: inside_wall_box_def inside_wall_def wall_position_def MAZE_SIZE_def WALL_SIZE_def)
  have cell_in: "player_cell inside_wall = \<lparr>pos_x = 2, pos_z = 1\<rparr>"
    and cell_c: "player_cell open_centre = \<lparr>pos_x = 1, pos_z = 1\<rparr>"
    by (simp_all add: player_cell_def w rd)
  have acc: "checkCollision serpentine inside_wall = Inr False"
    by (simp add: checkCollision_def Let_def w checkPositions_def COLLISION_RADIUS_def
        MAZE_SIZE_def fl serpentine_cell_1_1)
  have rej: "checkCollision serpentine open_centre = Inr True"
    by (simp add: checkCollision_def Let_def w checkPositions_def COLLISION_RADIUS_def
        MAZE_SIZE_def fl serpentine_cell_1_1 serpentine_cell_0_1)
  have samples: "map (\<lambda>(sx, sz). (round sx, round sz))
     (checkPositions (worldToMaze (vx open_centre)) (worldToMaze (vz open_centre))) =
     [(1, 1), (1, 1), (1, 1), (1, 1), (1, 1)]"
    by (simp add: w checkPositions_def COLLISION_RADIUS_def rd)
  have wb: "(vx inside_wall + 21 * WALL_SIZE / 2) / WALL_SIZE = 13 / 8"
    "(vz inside_wall + 21 * WALL_SIZE / 2) / WALL_SIZE = 11 / 8"
    "(vx open_centre + 21 * WALL_SIZE / 2) / WALL_SIZE = 1"
    "(vz open_centre + 21 * WALL_SIZE / 2) / WALL_SIZE = 1"
    using w by (simp_all add: worldToMaze_def MAZE_SIZE_def)
  have basic_in: "checkCollision_basic serpentine inside_wall = Inr True"
    by (simp add: checkCollision_basic_def Let_def wb rd MAZE_SIZE_def serpentine_cells)
  have basic_c: "checkCollision_basic serpentine open_centre = Inr False"
    by (simp add: checkCollision_basic_def Let_def wb rd MAZE_SIZE_def serpentine_cell_1_1)
  show ?thesis
    using box cell_in serpentine_cells acc basic_in cell_c samples rej basic_c by simp
qed

subsection \<open>Movement along a wall\<close>

lemma updateMovement_basic_rejects:
  "cameraRef s = Some camera \<Longrightarrow>
   checkCollision_basic (mazeRef s)
     (vec_add camera ((applyQuaternion (velocity_basic (moveStateRef s)))\<lparr>vy := 0\<rparr>)) = Inr True \<Longrightarrow>
   updateMovement_basic applyQuaternion s = Inr s"
  by (simp add: updateMovement_basic_def Let_def)

text \<open>
  C2 as stated fails for the basic component: with forward and right pressed and the camera
  not rotated, the displacement along X alone ends in the wall cell (2, 1), the displacement
  along Z alone passes the collision test, and \<open>updateMovement\<close> of MazeGame.tsx leaves the
  session as it was: the Z component does not commit.
\<close>

theorem updateMovement_basic_counterexample:
  "checkCollision_basic serpentine \<lparr>vx = - 1805 / 100 + 1 / 10, vy = 16 / 10, vz = - 19\<rparr> = Inr True \<and>
   checkCollision_basic serpentine \<lparr>vx = - 1805 / 100, vy = 16 / 10, vz = - 19 - 1 / 10\<rparr> = Inr False \<and>
   velocity_basic (moveStateRef blocked_basic) = \<lparr>vx = 1 / 10, vy = 0, vz = - (1 / 10)\<rparr> \<and>
   updateMovement_basic (\<lambda>v. v) blocked_basic = Inr blocked_basic"
proof -
  have r: "round (61 / 40 :: real) = 2" "round (59 / 40 :: real) = 1" "round (19 / 20 :: real) = 1"
    "round (1 :: real) = 1"
    by (simp_all add: round_def floor_eq_iff)
  have c1: "checkCollision_basic serpentine \<lparr>vx = - 1805 / 100 + 1 / 10, vy = 16 / 10, vz = - 19\<rparr> = Inr True"
    by (simp add: checkCollision_basic_def MAZE_SIZE_def WALL_SIZE_def r serpentine_cells)
  have c2: "checkCollision_basic serpentine \<lparr>vx = - 1805 / 100, vy = 16 / 10, vz = - 19 - 1 / 10\<rparr> = Inr False"
    using serpentine_cells(2)
    by (simp add: checkCollision_basic_def MAZE_SIZE_def WALL_SIZE_def r is_open_def open_not_wall)
  have v: "velocity_basic (moveStateRef blocked_basic) = \<lparr>vx = 1 / 10, vy = 0, vz = - (1 / 10)\<rparr>"
    by (simp add: velocity_basic_def blocked_basic_def keys_forward_right_def MOVE_SPEED_basic_def)
  have c3: "checkCollision_basic serpentine \<lparr>vx = - 1805 / 100 + 1 / 10, vy = 16 / 10, vz = - 19 - 1 / 10\<rparr> = Inr True"
    by (simp add: checkCollision_basic_def MAZE_SIZE_def WALL_SIZE_def r serpentine_cells)
  have sel: "cameraRef blocked_basic = Some \<lparr>vx = - 1805 / 100, vy = 16 / 10, vz = - 19\<rparr>"
    "mazeRef blocked_basic = serpentine"
    by (simp_all add: blocked_basic_def fresh_session_def mounted_def)
  have "updateMovement_basic (\<lambda>v. v) blocked_basic = Inr blocked_basic"
    using c3 by (intro updateMovement_basic_rejects[OF sel(1)]) (simp add: sel v vec_add_def)
  with c1 c2 v show ?thesis by simp
qed

text \<open>
  C2, amended: in the enhanced component, whenever the displacement along X alone collides
  and the displacement along Z alone passes the collision test, \<open>updateMovement\<close> (of a
  render that is not in the respawn lockout) commits the Z component and leaves X as it was. The basic component tests the combined displacement once
  and, when it collides, rejects the whole move.
\<close>

theorem updateMovement_axes:
  "(cameraRef s = Some camera \<and> \<not> r_isRespawning c \<and>
    vec_length (moveVector (moveStateRef s)) > 0 \<and>
    mv = applyEuler (multiplyScalar MOVE_SPEED (normalize (moveVector (moveStateRef s)))) \<and>
    checkCollision (mazeRef s) (camera\<lparr>vx := vx camera + vx mv\<rparr>) = Inr True \<and>
    checkCollision (mazeRef s) (camera\<lparr>vz := vz camera + vz mv\<rparr>) = Inr False \<longrightarrow>
      (\<exists>s'. updateMovement applyEuler c s = Inr s' \<and>
            cameraRef s' = Some (camera\<lparr>vz := vz camera + vz mv\<rparr>))) \<and>
   (cameraRef s = Some camera \<and>
    checkCollision_basic (mazeRef s)
      (vec_add camera ((applyQuaternion (velocity_basic (moveStateRef s)))\<lparr>vy := 0\<rparr>)) = Inr True \<longrightarrow>
      updateMovement_basic applyQuaternion s = Inr s)"
  by (auto simp: updateMovement_def Let_def updateMovement_basic_rejects)

text \<open>
  C2, witness: the session \<open>sliding\<close> with the camera not rotated slides along the wall
  (2, 1): Z moves by \<open>0.08 / sqrt 2\<close>, X stays; the session \<open>blocked_basic\<close> stays as it is.
\<close>

theorem updateMovement_axes_witness:
  "(\<exists>s'. updateMovement (\<lambda>v. v) (captured sliding) sliding = Inr s' \<and>
      cameraRef s' = Some \<lparr>vx = - 1752 / 100, vy = 16 / 10, vz = - 18 - 1 / sqrt 2 * (8 / 100)\<rparr>) \<and>
   updateMovement_basic (\<lambda>v. v) blocked_basic = Inr blocked_basic"
proof -
  define d :: real where "d = 1 / sqrt 2 * (8 / 100)"
  define cam where "cam = \<lparr>vx = - 1752 / 100, vy = 16 / 10, vz = - 18 :: real\<rparr>"
  define mv where "mv = multiplyScalar MOVE_SPEED (normalize (moveVector (moveStateRef sliding)))"
  define px where "px = - 1752 / 100 + d"
  define pz where "pz = - 18 - d"
  define x0 :: real where "x0 = - 1752 / 100"
  have s2: "1 < sqrt 2" "sqrt 2 < 16 / 10"
    by (rule real_less_rsqrt, simp) (rule real_less_lsqrt, simp_all add: power2_eq_square)
  have cb: "5 / 100 < d" "d < 8 / 100"
    using s2 by (simp_all add: d_def field_simps)
  have mvec: "moveVector (moveStateRef sliding) = \<lparr>vx = 1, vy = 0, vz = - 1\<rparr>"
    by (simp add: sliding_def keys_forward_right_def moveVector_def)
  have len: "vec_length \<lparr>vx = 1, vy = 0, vz = - 1\<rparr> = sqrt 2"
    by (simp add: vec_length_def)
  have mvx: "vx mv = d" and mvz: "vz mv = - d"
    using s2 by (simp_all add: mv_def mvec normalize_def len multiplyScalar_def d_def MOVE_SPEED_def)
  have sel: "cameraRef sliding = Some cam" "\<not> r_isRespawning (captured sliding)"
    "mazeRef sliding = serpentine"
    by (simp_all add: sliding_def fresh_session_def mounted_def cam_def)
  have tx: "cam\<lparr>vx := vx cam + vx mv\<rparr> = \<lparr>vx = px, vy = 16 / 10, vz = - 18\<rparr>"
    and tz: "cam\<lparr>vz := vz cam + vz mv\<rparr> = \<lparr>vx = x0, vy = 16 / 10, vz = pz\<rparr>"
    by (simp_all add: cam_def mvx mvz px_def pz_def x0_def)
  have wx: "worldToMaze px = 174 / 100 + d / 2" and wz: "worldToMaze pz = 3 / 2 - d / 2"
    and wx0: "worldToMaze x0 = 174 / 100" and w0: "worldToMaze (- 18) = 3 / 2"
    by (simp_all add: worldToMaze_def px_def pz_def x0_def MAZE_SIZE_def WALL_SIZE_def field_simps)
  have fx: "\<lfloor>worldToMaze px\<rfloor> = 1" "\<lfloor>worldToMaze px + 1 / 4\<rfloor> = 2"
    using cb by (simp_all add: wx floor_eq_iff)
  have fz: "\<lfloor>worldToMaze pz\<rfloor> = 1" "\<lfloor>worldToMaze pz + 1 / 4\<rfloor> = 1" "\<lfloor>worldToMaze pz - 1 / 4\<rfloor> = 1"
    using cb by (simp_all add: wz floor_eq_iff)
  have fx0: "\<lfloor>worldToMaze x0\<rfloor> = 1" "\<lfloor>worldToMaze x0 + 1 / 4\<rfloor> = 1"
    "\<lfloor>worldToMaze x0 - 1 / 4\<rfloor> = 1"
    and mx0: "1 / 10 \<le> worldToMaze x0" "worldToMaze x0 < 209 / 10"
    by (simp_all add: wx0 floor_eq_iff)
  have f0: "\<lfloor>3 / 2 :: real\<rfloor> = 1"
    by (simp_all add: floor_eq_iff)
  have mx: "1 / 10 \<le> worldToMaze px" "worldToMaze px < 209 / 10"
    and mz: "1 / 10 \<le> worldToMaze pz" "worldToMaze pz < 209 / 10"
    using cb by (simp_all add: wx wz)
  have hitX: "checkCollision (mazeRef sliding) (cam\<lparr>vx := vx cam + vx mv\<rparr>) = Inr True"
    using mx
    by (simp add: tx sel checkCollision_def checkPositions_def Let_def COLLISION_RADIUS_def
        MAZE_SIZE_def w0 fx f0 serpentine_cell_1_1 serpentine_cells not_le not_less)
  have freeZ: "checkCollision (mazeRef sliding) (cam\<lparr>vz := vz cam + vz mv\<rparr>) = Inr False"
    using mz mx0
    by (simp add: tz sel checkCollision_def checkPositions_def Let_def COLLISION_RADIUS_def
        MAZE_SIZE_def fz fx0 serpentine_cell_1_1 not_le not_less)
  have pos: "vec_length (moveVector (moveStateRef sliding)) > 0" using s2 by (simp add: mvec len)
  have sb: "cameraRef blocked_basic = Some \<lparr>vx = - 1805 / 100, vy = 16 / 10, vz = - 19\<rparr>"
    "mazeRef blocked_basic = serpentine" "moveStateRef blocked_basic = keys_forward_right"
    by (simp_all add: blocked_basic_def fresh_session_def mounted_def)
  have r: "round (61 / 40 :: real) = 2" "round (19 / 20 :: real) = 1"
    by (simp_all add: round_def floor_eq_iff)
  have hitB: "checkCollision_basic (mazeRef blocked_basic)
      (vec_add \<lparr>vx = - 1805 / 100, vy = 16 / 10, vz = - 19\<rparr>
         (((\<lambda>v. v) (velocity_basic (moveStateRef blocked_basic)))\<lparr>vy := 0\<rparr>)) = Inr True"
    by (simp add: sb vec_add_def velocity_basic_def keys_forward_right_def
        MOVE_SPEED_basic_def checkCollision_basic_def MAZE_SIZE_def WALL_SIZE_def r serpentine_cells)
  from updateMovement_axes[where s = sliding and c = "captured sliding" and camera = cam and mv = mv
      and applyEuler = "\<lambda>v. v"]
    updateMovement_axes[where s = blocked_basic
      and camera = "\<lparr>vx = - 1805 / 100, vy = 16 / 10, vz = - 19\<rparr>" and applyQuaternion = "\<lambda>v. v"]
  show ?thesis
    using sel pos hitX freeZ sb hitB by (simp add: mv_def[symmetric] tz pz_def d_def x0_def)
qed

subsection \<open>Timers and teardown\<close>

lemma timer_inv_mounted: "timer_inv (mounted maze exitPos)"
  by (simp add: timer_inv_def mounted_def)

text \<open>
  Arming a respawn keeps the discipline whatever render the call belongs to: the guard may let
  the call through during the lockout, but the timer recorded in the ref is cleared first.
\<close>

lemma timer_inv_respawnPlayer: "timer_inv s \<Longrightarrow> timer_inv (respawnPlayer c s)"
  by (auto simp: timer_inv_def respawnPlayer_def setTimeout_def clearTimeout_def Let_def
      split: option.splits)

lemma timer_inv_fields:
  "timers s' = timers s \<Longrightarrow> respawnTimerRef s' = respawnTimerRef s \<Longrightarrow>
   nextHandle s' = nextHandle s \<Longrightarrow> timer_inv s \<Longrightarrow> timer_inv s'"
  by (simp add: timer_inv_def)

lemma timer_inv_attackPlayer: "timer_inv s \<Longrightarrow> timer_inv (attackPlayer c s)"
proof -
  assume i: "timer_inv s"
  have a: "timer_inv (s\<lparr>lives := n, toasts := ts\<rparr>)" for n ts
    using i by (rule timer_inv_fields[rotated 3]) simp_all
  have b: "timer_inv (s\<lparr>lives := n, gameOver := True, toasts := ts\<rparr>)" for n ts
    using i by (rule timer_inv_fields[rotated 3]) simp_all
  show ?thesis
    using i a b by (simp add: attackPlayer_def Let_def timer_inv_respawnPlayer)
qed

lemma timer_inv_checkWinCondition: "timer_inv s \<Longrightarrow> timer_inv (checkWinCondition c s)"
  by (simp add: checkWinCondition_def Let_def timer_inv_def)

lemma timer_inv_step: "timer_inv s \<Longrightarrow> timer_inv (step e s)"
proof (cases e)
  case AttackPlayer
  assume "timer_inv s"
  with AttackPlayer show ?thesis by (simp add: step_def timer_inv_attackPlayer)
next
  case CheckWin
  assume "timer_inv s"
  with CheckWin show ?thesis by (simp add: step_def timer_inv_checkWinCondition)
next
  case (TimerFires h r1 r2)
  assume "timer_inv s"
  with TimerFires show ?thesis
    by (auto simp: step_def timer_inv_def respawnCallback_def Let_def split: option.splits if_splits)
next
  case Frame
  assume "timer_inv s"
  with Frame show ?thesis by (simp add: step_def timer_inv_def animate_def)
next
  case Cleanup
  assume "timer_inv s"
  with Cleanup show ?thesis by (simp add: step_def timer_inv_def cleanup_def)
next
  case (SettingsChange maze exitPos)
  assume "timer_inv s"
  with SettingsChange show ?thesis
    by (simp add: step_def timer_inv_def remount_def cleanup_def Let_def)
next
  case ResetGame
  assume "timer_inv s"
  with ResetGame show ?thesis
    by (auto simp: step_def timer_inv_def resetGame_def Let_def split: option.splits)
qed

lemma timer_inv_run: "timer_inv s \<Longrightarrow> timer_inv (run es s)"
  unfolding run_def by (induction es arbitrary: s) (simp_all add: timer_inv_step)

text \<open>
  C4 as stated fails: after an attack has armed the respawn timer, tearing the session down
  leaves the timer pending and the frame callback requested; the next frame requests another
  one, and the timer, when it fires, still changes the session: the state, the player's
  position ref and the timer ref.
\<close>

theorem cleanup_counterexample:
  "timers (run [AttackPlayer, Cleanup] fresh_session) = [(1, \<lparr>pos_x = 1, pos_z = 1\<rparr>)] \<and>
   rendererDisposed (run [AttackPlayer, Cleanup] fresh_session) \<and>
   frameRequested (run [AttackPlayer, Cleanup, Frame] fresh_session) \<and>
   isRespawning (run [AttackPlayer, Cleanup] fresh_session) \<and>
   \<not> isRespawning (run [AttackPlayer, Cleanup, TimerFires 1 (1 / 2) (1 / 2)] fresh_session) \<and>
   respawnTimerRef (run [AttackPlayer, Cleanup] fresh_session) = Some 1 \<and>
   respawnTimerRef (run [AttackPlayer, Cleanup, TimerFires 1 (1 / 2) (1 / 2)] fresh_session) = None"
  by (simp add: run_def step_def fresh_session_def mounted_def frame_guard_def attackPlayer_def
      respawnPlayer_def setTimeout_def cleanup_def animate_def respawnCallback_def Let_def)

text \<open>
  C4, amended: at every moment at most one respawn timer is pending. This holds after every
  sequence of events from the mounted session: attacks that re-arm the timer during the lockout
  (the frame loop's render still reads \<open>isRespawning\<close> as false), timers firing, frames,
  changes of the settings, resets and teardown.
\<close>

theorem one_respawn_timer:
  "length (timers (run es (mounted maze exitPos))) \<le> 1"
proof -
  have "timer_inv (run es (mounted maze exitPos))"
    using timer_inv_mounted by (rule timer_inv_run)
  then show ?thesis by (auto simp: timer_inv_def)
qed

end
